theory Spec2Isabelle
  imports Main "HOL-Library.Word"
begin

section \<open>The kind registry (package schema)\<close>

text \<open>
  \<^verbatim>\<open>type Kind int\<close>: a kind is a Go \<^verbatim>\<open>int\<close>. The only arithmetic the package does on a
  kind is the \<^verbatim>\<open>i++\<close> of the \<^verbatim>\<open>init\<close> loop, between 1 and 21, so the width of \<^verbatim>\<open>int\<close>
  plays no role and kinds are modelled as (unbounded) integers; every value a Go \<^verbatim>\<open>int\<close>
  can hold, negative ones included, is a value of this type.
\<close>

type_synonym Kind = int

text \<open>The \<^verbatim>\<open>iota\<close> block: the constants in their order of declaration, from 0.\<close>

definition InvalidKind :: Kind where "InvalidKind = 0"
definition StringKind :: Kind where "StringKind = 1"
definition BytesKind :: Kind where "BytesKind = 2"
definition Int8Kind :: Kind where "Int8Kind = 3"
definition Uint8Kind :: Kind where "Uint8Kind = 4"
definition Int16Kind :: Kind where "Int16Kind = 5"
definition Uint16Kind :: Kind where "Uint16Kind = 6"
definition Int32Kind :: Kind where "Int32Kind = 7"
definition Uint32Kind :: Kind where "Uint32Kind = 8"
definition Int64Kind :: Kind where "Int64Kind = 9"
definition Uint64Kind :: Kind where "Uint64Kind = 10"
definition IntegerStringKind :: Kind where "IntegerStringKind = 11"
definition DecimalStringKind :: Kind where "DecimalStringKind = 12"
definition BoolKind :: Kind where "BoolKind = 13"
definition TimeKind :: Kind where "TimeKind = 14"
definition DurationKind :: Kind where "DurationKind = 15"
definition Float32Kind :: Kind where "Float32Kind = 16"
definition Float64Kind :: Kind where "Float64Kind = 17"
definition AddressKind :: Kind where "AddressKind = 18"
definition EnumKind :: Kind where "EnumKind = 19"
definition JSONKind :: Kind where "JSONKind = 20"
definition UIntNKind :: Kind where "UIntNKind = 21"
definition IntNKind :: Kind where "IntNKind = 22"
definition StructKind :: Kind where "StructKind = 23"
definition OneOfKind :: Kind where "OneOfKind = 24"
definition ListKind :: Kind where "ListKind = 25"

definition MAX_VALID_KIND :: Kind where "MAX_VALID_KIND = JSONKind"

lemmas kind_defs =
  InvalidKind_def StringKind_def BytesKind_def Int8Kind_def Uint8Kind_def Int16Kind_def
  Uint16Kind_def Int32Kind_def Uint32Kind_def Int64Kind_def Uint64Kind_def
  IntegerStringKind_def DecimalStringKind_def BoolKind_def TimeKind_def DurationKind_def
  Float32Kind_def Float64Kind_def AddressKind_def EnumKind_def JSONKind_def UIntNKind_def
  IntNKind_def StructKind_def OneOfKind_def ListKind_def MAX_VALID_KIND_def

subsection \<open>Values behind \<^verbatim>\<open>interface{}\<close>\<close>

text \<open>
  A Go \<^verbatim>\<open>interface{}\<close> value is a dynamic type together with a value of it. The types
  the package switches on each get a constructor; \<open>GoNil\<close> is the nil interface and
  \<open>GoOther n\<close> a value of any other type, \<open>n\<close> being what \<^verbatim>\<open>%T\<close> prints for it.
  \<^verbatim>\<open>byte\<close> is an alias of \<^verbatim>\<open>uint8\<close>, so \<^verbatim>\<open>[]byte\<close> and \<^verbatim>\<open>[]uint8\<close> are one type, while
  \<^verbatim>\<open>json.RawMessage\<close> and \<^verbatim>\<open>time.Duration\<close> are named types of their own. Go strings and
  byte slices are sequences of bytes: \<open>string\<close> here (a list of 8-bit characters).
  Floats are kept as their IEEE-754 bit patterns and a \<^verbatim>\<open>time.Time\<close> as its nanoseconds;
  no function below looks inside either.
\<close>

datatype go_value =
    GoNil
  | GoString string
  | GoBytes string
  | GoInt8 "8 word"
  | GoUint8 "8 word"
  | GoInt16 "16 word"
  | GoUint16 "16 word"
  | GoInt32 "32 word"
  | GoUint32 "32 word"
  | GoInt64 "64 word"
  | GoUint64 "64 word"
  | GoFloat32 "32 word"
  | GoFloat64 "64 word"
  | GoBool bool
  | GoTime int
  | GoDuration "64 word"
  | GoRawMessage string
  | GoOther string

text \<open>What \<^verbatim>\<open>%T\<close> prints for a value.\<close>

fun go_type_name :: "go_value \<Rightarrow> string" where
  "go_type_name GoNil = ''<nil>''"
| "go_type_name (GoString _) = ''string''"
| "go_type_name (GoBytes _) = ''[]uint8''"
| "go_type_name (GoInt8 _) = ''int8''"
| "go_type_name (GoUint8 _) = ''uint8''"
| "go_type_name (GoInt16 _) = ''int16''"
| "go_type_name (GoUint16 _) = ''uint16''"
| "go_type_name (GoInt32 _) = ''int32''"
| "go_type_name (GoUint32 _) = ''uint32''"
| "go_type_name (GoInt64 _) = ''int64''"
| "go_type_name (GoUint64 _) = ''uint64''"
| "go_type_name (GoFloat32 _) = ''float32''"
| "go_type_name (GoFloat64 _) = ''float64''"
| "go_type_name (GoBool _) = ''bool''"
| "go_type_name (GoTime _) = ''time.Time''"
| "go_type_name (GoDuration _) = ''time.Duration''"
| "go_type_name (GoRawMessage _) = ''json.RawMessage''"
| "go_type_name (GoOther n) = n"

subsection \<open>Errors\<close>

text \<open>
  One constructor for each \<^verbatim>\<open>fmt.Errorf\<close> format of the package, with the arguments of
  the format; \<open>ErrJSONUnmarshal\<close> stands for any error of \<^verbatim>\<open>json.Unmarshal\<close>. A Go
  \<^verbatim>\<open>error\<close> result is an \<open>error option\<close>, \<open>None\<close> being \<^verbatim>\<open>nil\<close>. \<open>PanicTypeAssertion\<close>
  is no error value: it marks the run-time panic of an unchecked type assertion
  \<^verbatim>\<open>value.(T)\<close> on a value of another type.
\<close>

datatype error =
    ErrUnknownType Kind             \<comment> \<open>\<^verbatim>\<open>unknown type: %d\<close>\<close>
  | ErrInvalidType Kind             \<comment> \<open>\<^verbatim>\<open>invalid type: %d\<close>\<close>
  | ErrExpectedGot string string    \<comment> \<open>\<^verbatim>\<open>expected <type>, got %T\<close>\<close>
  | ErrExpectedUTF8 go_value        \<comment> \<open>\<^verbatim>\<open>expected valid utf-8 string, got %s\<close>\<close>
  | ErrNullCharacters go_value      \<comment> \<open>\<^verbatim>\<open>expected string without null characters, got %s\<close>\<close>
  | ErrExpectedInteger go_value     \<comment> \<open>\<^verbatim>\<open>expected base10 integer, got %s\<close>\<close>
  | ErrExpectedDecimal go_value     \<comment> \<open>\<^verbatim>\<open>expected decimal number, got %s\<close>\<close>
  | ErrExpectedJSON go_value        \<comment> \<open>\<^verbatim>\<open>expected valid JSON, got %s\<close>\<close>
  | ErrInvalidKindName string       \<comment> \<open>\<^verbatim>\<open>invalid kind: %s\<close>\<close>
  | ErrJSONUnmarshal
  | PanicTypeAssertion

subsection \<open>\<^verbatim>\<open>Kind.Validate\<close>\<close>

definition Validate :: "Kind \<Rightarrow> error option" where
  "Validate t =
     (if t \<le> InvalidKind then Some (ErrUnknownType t)
      else if t > JSONKind then Some (ErrInvalidType t)
      else None)"

subsection \<open>\<^verbatim>\<open>Kind.String\<close>\<close>

text \<open>\<^verbatim>\<open>%d\<close> of an integer: its decimal digits, after a minus sign when it is negative.\<close>

fun fmt_nat :: "nat \<Rightarrow> string" where
  "fmt_nat n =
     (if n < 10 then [char_of (48 + n)]
      else fmt_nat (n div 10) @ [char_of (48 + n mod 10)])"

declare fmt_nat.simps [simp del]

definition fmt_d :: "int \<Rightarrow> string" where
  "fmt_d i = (if i < 0 then CHR ''-'' # fmt_nat (nat (- i)) else fmt_nat (nat i))"

definition String :: "Kind \<Rightarrow> string" where
  "String t =
     (if t = StringKind then ''string''
      else if t = BytesKind then ''bytes''
      else if t = Int8Kind then ''int8''
      else if t = Uint8Kind then ''uint8''
      else if t = Int16Kind then ''int16''
      else if t = Uint16Kind then ''uint16''
      else if t = Int32Kind then ''int32''
      else if t = Uint32Kind then ''uint32''
      else if t = Int64Kind then ''int64''
      else if t = Uint64Kind then ''uint64''
      else if t = DecimalStringKind then ''decimal''
      else if t = IntegerStringKind then ''integer''
      else if t = BoolKind then ''bool''
      else if t = TimeKind then ''time''
      else if t = DurationKind then ''duration''
      else if t = Float32Kind then ''float32''
      else if t = Float64Kind then ''float64''
      else if t = AddressKind then ''address''
      else if t = EnumKind then ''enum''
      else if t = JSONKind then ''json''
      else ''invalid('' @ fmt_d t @ '')'')"

subsection \<open>\<^verbatim>\<open>Kind.ValidateValueType\<close>\<close>

text \<open>The type assertions \<^verbatim>\<open>_, ok := value.(T)\<close> of the switch.\<close>

definition is_string :: "go_value \<Rightarrow> bool" where
  "is_string v = (case v of GoString _ \<Rightarrow> True | _ \<Rightarrow> False)"
definition is_bytes :: "go_value \<Rightarrow> bool" where
  "is_bytes v = (case v of GoBytes _ \<Rightarrow> True | _ \<Rightarrow> False)"
definition is_int8 :: "go_value \<Rightarrow> bool" where
  "is_int8 v = (case v of GoInt8 _ \<Rightarrow> True | _ \<Rightarrow> False)"
definition is_uint8 :: "go_value \<Rightarrow> bool" where
  "is_uint8 v = (case v of GoUint8 _ \<Rightarrow> True | _ \<Rightarrow> False)"
definition is_int16 :: "go_value \<Rightarrow> bool" where
  "is_int16 v = (case v of GoInt16 _ \<Rightarrow> True | _ \<Rightarrow> False)"
definition is_uint16 :: "go_value \<Rightarrow> bool" where
  "is_uint16 v = (case v of GoUint16 _ \<Rightarrow> True | _ \<Rightarrow> False)"
definition is_int32 :: "go_value \<Rightarrow> bool" where
  "is_int32 v = (case v of GoInt32 _ \<Rightarrow> True | _ \<Rightarrow> False)"
definition is_uint32 :: "go_value \<Rightarrow> bool" where
  "is_uint32 v = (case v of GoUint32 _ \<Rightarrow> True | _ \<Rightarrow> False)"
definition is_int64 :: "go_value \<Rightarrow> bool" where
  "is_int64 v = (case v of GoInt64 _ \<Rightarrow> True | _ \<Rightarrow> False)"
definition is_uint64 :: "go_value \<Rightarrow> bool" where
  "is_uint64 v = (case v of GoUint64 _ \<Rightarrow> True | _ \<Rightarrow> False)"
definition is_float32 :: "go_value \<Rightarrow> bool" where
  "is_float32 v = (case v of GoFloat32 _ \<Rightarrow> True | _ \<Rightarrow> False)"
definition is_float64 :: "go_value \<Rightarrow> bool" where
  "is_float64 v = (case v of GoFloat64 _ \<Rightarrow> True | _ \<Rightarrow> False)"
definition is_bool :: "go_value \<Rightarrow> bool" where
  "is_bool v = (case v of GoBool _ \<Rightarrow> True | _ \<Rightarrow> False)"
definition is_time :: "go_value \<Rightarrow> bool" where
  "is_time v = (case v of GoTime _ \<Rightarrow> True | _ \<Rightarrow> False)"
definition is_duration :: "go_value \<Rightarrow> bool" where
  "is_duration v = (case v of GoDuration _ \<Rightarrow> True | _ \<Rightarrow> False)"
definition is_raw_message :: "go_value \<Rightarrow> bool" where
  "is_raw_message v = (case v of GoRawMessage _ \<Rightarrow> True | _ \<Rightarrow> False)"

lemmas is_type_defs =
  is_string_def is_bytes_def is_int8_def is_uint8_def is_int16_def is_uint16_def
  is_int32_def is_uint32_def is_int64_def is_uint64_def is_float32_def is_float64_def
  is_bool_def is_time_def is_duration_def is_raw_message_def

definition expect :: "bool \<Rightarrow> string \<Rightarrow> go_value \<Rightarrow> error option" where
  "expect ok ty value = (if \<not> ok then Some (ErrExpectedGot ty (go_type_name value)) else None)"

definition ValidateValueType :: "Kind \<Rightarrow> go_value \<Rightarrow> error option" where
  "ValidateValueType t value =
     (if t = StringKind then expect (is_string value) ''string'' value
      else if t = BytesKind then expect (is_bytes value) ''[]byte'' value
      else if t = Int8Kind then expect (is_int8 value) ''int8'' value
      else if t = Uint8Kind then expect (is_uint8 value) ''uint8'' value
      else if t = Int16Kind then expect (is_int16 value) ''int16'' value
      else if t = Uint16Kind then expect (is_uint16 value) ''uint16'' value
      else if t = Int32Kind then expect (is_int32 value) ''int32'' value
      else if t = Uint32Kind then expect (is_uint32 value) ''uint32'' value
      else if t = Int64Kind then expect (is_int64 value) ''int64'' value
      else if t = Uint64Kind then expect (is_uint64 value) ''uint64'' value
      else if t = IntegerStringKind then expect (is_string value) ''string'' value
      else if t = DecimalStringKind then expect (is_string value) ''string'' value
      else if t = BoolKind then expect (is_bool value) ''bool'' value
      else if t = TimeKind then expect (is_time value) ''time.Time'' value
      else if t = DurationKind then expect (is_duration value) ''time.Duration'' value
      else if t = Float32Kind then expect (is_float32 value) ''float32'' value
      else if t = Float64Kind then expect (is_float64 value) ''float64'' value
      else if t = AddressKind then expect (is_bytes value) ''[]byte'' value
      else if t = EnumKind then expect (is_string value) ''string'' value
      else if t = JSONKind then expect (is_raw_message value) ''json.RawMessage'' value
      else Some (ErrInvalidType t))"

subsection \<open>\<^verbatim>\<open>Kind.ValidKeyKind\<close>\<close>

definition ValidKeyKind :: "Kind \<Rightarrow> bool" where
  "ValidKeyKind t =
     (if t = Float32Kind \<or> t = Float64Kind \<or> t = JSONKind then False else True)"

subsection \<open>\<^verbatim>\<open>KindForGoValue\<close>\<close>

text \<open>The type switch, in the order of its cases; the nil interface takes the default.\<close>

fun KindForGoValue :: "go_value \<Rightarrow> Kind" where
  "KindForGoValue (GoString _) = StringKind"
| "KindForGoValue (GoBytes _) = BytesKind"
| "KindForGoValue (GoInt8 _) = Int8Kind"
| "KindForGoValue (GoUint8 _) = Uint8Kind"
| "KindForGoValue (GoInt16 _) = Int16Kind"
| "KindForGoValue (GoUint16 _) = Uint16Kind"
| "KindForGoValue (GoInt32 _) = Int32Kind"
| "KindForGoValue (GoUint32 _) = Uint32Kind"
| "KindForGoValue (GoInt64 _) = Int64Kind"
| "KindForGoValue (GoUint64 _) = Uint64Kind"
| "KindForGoValue (GoFloat32 _) = Float32Kind"
| "KindForGoValue (GoFloat64 _) = Float64Kind"
| "KindForGoValue (GoBool _) = BoolKind"
| "KindForGoValue (GoTime _) = TimeKind"
| "KindForGoValue (GoDuration _) = DurationKind"
| "KindForGoValue (GoRawMessage _) = JSONKind"
| "KindForGoValue _ = InvalidKind"

text \<open>A value has a mapping when its dynamic type is one of the cases of the switch.\<close>

fun has_kind_mapping :: "go_value \<Rightarrow> bool" where
  "has_kind_mapping GoNil = False"
| "has_kind_mapping (GoOther _) = False"
| "has_kind_mapping _ = True"

section \<open>Go's \<^verbatim>\<open>unicode/utf8\<close> (standard library)\<close>

text \<open>
  The package calls \<^verbatim>\<open>utf8.ValidString\<close> and ranges over the runes of a string. Both
  belong to Go's standard library; they are written out here after the library's source.
  A byte is read as its value \<open>byte c\<close> between 0 and 255, a rune is an integer (Go's
  \<^verbatim>\<open>int32\<close>; every rune below is between 0 and \<^verbatim>\<open>0x10FFFF\<close>), the masks \<^verbatim>\<open>b & 0x1F\<close> and the
  shifts \<^verbatim>\<open>r << 6\<close> are \<open>b mod 32\<close> and \<open>r * 64\<close>.
\<close>

type_synonym rune = int

definition RuneError :: rune where "RuneError = 0xFFFD"
definition RuneSelf :: int where "RuneSelf = 0x80"
definition MaxRune :: rune where "MaxRune = 0x10FFFF"
definition UTFMax :: nat where "UTFMax = 4"
definition locb :: int where "locb = 0x80"
definition hicb :: int where "hicb = 0xBF"

definition byte :: "char \<Rightarrow> int" where
  "byte c = of_char c"

text \<open>
  The table \<^verbatim>\<open>first\<close> with \<^verbatim>\<open>acceptRanges\<close>: for a leading byte, \<open>AS\<close> (ASCII), \<open>XX\<close>
  (no leading byte), or the size of the sequence with the range accepted for its second
  byte.
\<close>

datatype first_info = AS | XX | Lead nat int int

definition first :: "int \<Rightarrow> first_info" where
  "first b =
     (if b < 0x80 then AS
      else if b < 0xC2 then XX
      else if b < 0xE0 then Lead 2 locb hicb
      else if b = 0xE0 then Lead 3 0xA0 hicb
      else if b < 0xED then Lead 3 locb hicb
      else if b = 0xED then Lead 3 locb 0x9F
      else if b < 0xF0 then Lead 3 locb hicb
      else if b = 0xF0 then Lead 4 0x90 hicb
      else if b < 0xF4 then Lead 4 locb hicb
      else if b = 0xF4 then Lead 4 locb 0x8F
      else XX)"

text \<open>\<^verbatim>\<open>utf8.DecodeRuneInString\<close>: the first rune of \<open>s\<close> and its width in bytes.\<close>

definition DecodeRuneInString :: "string \<Rightarrow> rune \<times> nat" where
  "DecodeRuneInString s =
     (if length s < 1 then (RuneError, 0)
      else let s0 = byte (s ! 0) in
        case first s0 of
          AS \<Rightarrow> (s0, 1)
        | XX \<Rightarrow> (RuneError, 1)
        | Lead sz lo hi \<Rightarrow>
            if length s < sz then (RuneError, 1)
            else let s1 = byte (s ! 1) in
              if s1 < lo \<or> hi < s1 then (RuneError, 1)
              else if sz \<le> 2 then ((s0 mod 32) * 64 + s1 mod 64, 2)
              else let s2 = byte (s ! 2) in
                if s2 < locb \<or> hicb < s2 then (RuneError, 1)
                else if sz \<le> 3 then ((s0 mod 16) * 4096 + (s1 mod 64) * 64 + s2 mod 64, 3)
                else let s3 = byte (s ! 3) in
                  if s3 < locb \<or> hicb < s3 then (RuneError, 1)
                  else ((s0 mod 8) * 262144 + (s1 mod 64) * 4096 + (s2 mod 64) * 64
                        + s3 mod 64, 4))"

lemma first_Lead_size: "first b = Lead sz lo hi \<Longrightarrow> 2 \<le> sz \<and> sz \<le> 4"
  by (auto simp: first_def split: if_splits)

lemma DecodeRuneInString_size: "s \<noteq> [] \<Longrightarrow> 1 \<le> snd (DecodeRuneInString s)"
  by (auto simp: DecodeRuneInString_def Let_def split: first_info.splits)

text \<open>
  \<^verbatim>\<open>utf8.ValidString\<close>: the loop \<^verbatim>\<open>for i := 0; i < n;\<close> over the string, as a recursion on
  what is left of it from index \<open>i\<close> on.
\<close>

function ValidString :: "string \<Rightarrow> bool" where
  "ValidString s =
     (if s = [] then True
      else let si = byte (s ! 0) in
        if si < RuneSelf then ValidString (drop 1 s)
        else case first si of
          AS \<Rightarrow> ValidString (drop 1 s)
        | XX \<Rightarrow> False
        | Lead sz lo hi \<Rightarrow>
            if sz > length s then False
            else if byte (s ! 1) < lo \<or> hi < byte (s ! 1) then False
            else if sz = 2 then ValidString (drop sz s)
            else if byte (s ! 2) < locb \<or> hicb < byte (s ! 2) then False
            else if sz = 3 then ValidString (drop sz s)
            else if byte (s ! 3) < locb \<or> hicb < byte (s ! 3) then False
            else ValidString (drop sz s))"
  by pat_completeness auto
termination
  by (relation "measure length") (auto dest: first_Lead_size)

declare ValidString.simps [simp del]

text \<open>
  The loop \<^verbatim>\<open>for _, r := range str { if r == 0 { return ... } }\<close> of \<^verbatim>\<open>ValidateValue\<close>:
  a \<^verbatim>\<open>range\<close> over a string decodes one rune after the other, an invalid byte giving
  \<^verbatim>\<open>RuneError\<close> of width 1. True when the loop meets the rune 0.
\<close>

function has_null_rune :: "string \<Rightarrow> bool" where
  "has_null_rune s =
     (if s = [] then False
      else let (r, sz) = DecodeRuneInString s in
        if r = 0 then True else has_null_rune (drop sz s))"
  by pat_completeness auto
termination
proof (relation "measure length", goal_cases)
  case 1
  show ?case by simp
next
  case (2 s x r sz)
  then have "sz = snd (DecodeRuneInString s)"
    by (metis snd_conv)
  with 2 show ?case
    using DecodeRuneInString_size [of s] by (cases s) auto
qed

declare has_null_rune.simps [simp del]

text \<open>\<^verbatim>\<open>utf8.EncodeRune\<close>: the bytes of a rune; what is no valid rune is written as \<^verbatim>\<open>RuneError\<close>.\<close>

definition EncodeRune :: "rune \<Rightarrow> string" where
  "EncodeRune r =
     (if 0 \<le> r \<and> r \<le> 0x7F then [char_of r]
      else if 0 \<le> r \<and> r \<le> 0x7FF then
        [char_of (0xC0 + r div 64), char_of (0x80 + r mod 64)]
      else if r < 0 \<or> r > MaxRune \<or> (0xD800 \<le> r \<and> r \<le> 0xDFFF) then
        [char_of (0xE0 + RuneError div 4096), char_of (0x80 + (RuneError div 64) mod 64),
         char_of (0x80 + RuneError mod 64)]
      else if r \<le> 0xFFFF then
        [char_of (0xE0 + r div 4096), char_of (0x80 + (r div 64) mod 64),
         char_of (0x80 + r mod 64)]
      else
        [char_of (0xF0 + r div 262144), char_of (0x80 + (r div 4096) mod 64),
         char_of (0x80 + (r div 64) mod 64), char_of (0x80 + r mod 64)])"

section \<open>The number formats and Go's \<^verbatim>\<open>regexp\<close>\<close>

text \<open>
  \<^verbatim>\<open>integerRegex\<close> and \<^verbatim>\<open>decimalRegex\<close> are the compiled forms of the constants
  \<^verbatim>\<open>IntegerFormat\<close> and \<^verbatim>\<open>DecimalFormat\<close>. A compiled expression is a syntax tree over the
  operators the two patterns use: \<^verbatim>\<open>^\<close> and \<^verbatim>\<open>$\<close> (without the flag \<^verbatim>\<open>m\<close>: beginning and end
  of the text), a literal, a character class of ranges, concatenation (also for a group),
  \<^verbatim>\<open>?\<close> and the counted repetition \<^verbatim>\<open>{n,m}\<close>.
\<close>

datatype regex =
    BeginText
  | EndText
  | Lit char
  | CharClass "(char \<times> char) list"
  | Concat "regex list"
  | Quest regex
  | Repeat nat nat regex

definition digit_class :: regex where
  "digit_class = CharClass [(CHR ''0'', CHR ''9'')]"

text \<open>
  \<^verbatim>\<open>regexp.MustCompile(IntegerFormat)\<close>, where \<^verbatim>\<open>IntegerFormat\<close> is the pattern
  \<^verbatim>\<open>^-?[0-9]{1,100}$\<close>.
\<close>

definition integerRegex :: regex where
  "integerRegex =
     Concat [BeginText, Quest (Lit CHR ''-''), Repeat 1 100 digit_class, EndText]"

text \<open>
  \<^verbatim>\<open>regexp.MustCompile(DecimalFormat)\<close>, where \<^verbatim>\<open>DecimalFormat\<close> is the pattern
  \<^verbatim>\<open>^-?[0-9]{1,50}(\.[0-9]{1,50})?([eE][-+]?[0-9]{1,2})?$\<close>.
\<close>

definition decimalRegex :: regex where
  "decimalRegex =
     Concat [BeginText, Quest (Lit CHR ''-''), Repeat 1 50 digit_class,
       Quest (Concat [Lit CHR ''.'', Repeat 1 50 digit_class]),
       Quest (Concat [CharClass [(CHR ''e'', CHR ''e''), (CHR ''E'', CHR ''E'')],
         Quest (CharClass [(CHR ''-'', CHR ''-''), (CHR ''+'', CHR ''+'')]),
         Repeat 1 2 digit_class]),
       EndText]"

text \<open>
  Matching. A state is a position in the text: the number of bytes before it and the
  bytes from it on. \<open>rmatch r st\<close> lists the positions at which a match of \<open>r\<close> begun at
  \<open>st\<close> can end. \<^verbatim>\<open>Regexp.Match\<close> reports whether the expression matches anywhere in the
  text. Go matches runes; every literal and class of the two patterns is ASCII and an
  ASCII byte stands for itself in UTF-8, so a byte of a longer sequence or an invalid
  one matches none of them, rune by rune as byte by byte.
\<close>

definition in_class :: "(char \<times> char) list \<Rightarrow> char \<Rightarrow> bool" where
  "in_class rs c =
     list_ex (\<lambda>(lo, hi). (of_char lo :: nat) \<le> of_char c \<and> (of_char c :: nat) \<le> of_char hi) rs"

type_synonym mstate = "nat \<times> string"

fun iterate :: "(mstate \<Rightarrow> mstate list) \<Rightarrow> nat \<Rightarrow> nat \<Rightarrow> mstate \<Rightarrow> mstate list" where
  "iterate f lo 0 st = (if lo = 0 then [st] else [])"
| "iterate f lo (Suc hi) st =
     (if lo = 0 then [st] else []) @ concat (map (iterate f (lo - 1) hi) (f st))"

fun rmatch :: "regex \<Rightarrow> mstate \<Rightarrow> mstate list" where
  "rmatch BeginText (p, s) = (if p = 0 then [(p, s)] else [])"
| "rmatch EndText (p, s) = (if s = [] then [(p, s)] else [])"
| "rmatch (Lit c) (p, s) =
     (case s of [] \<Rightarrow> [] | x # xs \<Rightarrow> if x = c then [(Suc p, xs)] else [])"
| "rmatch (CharClass rs) (p, s) =
     (case s of [] \<Rightarrow> [] | x # xs \<Rightarrow> if in_class rs x then [(Suc p, xs)] else [])"
| "rmatch (Concat []) st = [st]"
| "rmatch (Concat (r # rs)) st = concat (map (rmatch (Concat rs)) (rmatch r st))"
| "rmatch (Quest r) st = rmatch r st @ [st]"
| "rmatch (Repeat lo hi r) st = iterate (rmatch r) lo hi st"

definition Match :: "regex \<Rightarrow> string \<Rightarrow> bool" where
  "Match re b = list_ex (\<lambda>i. rmatch re (i, drop i b) \<noteq> []) [0..<Suc (length b)]"

text \<open>
  The integer grammar in words, to compare \<^verbatim>\<open>integerRegex\<close> with: an optional minus sign,
  then at least 1 and at most 100 decimal digits, and nothing else.
\<close>

definition is_digit :: "char \<Rightarrow> bool" where
  "is_digit c = ((48::nat) \<le> of_char c \<and> (of_char c :: nat) \<le> 57)"

definition strip_minus :: "string \<Rightarrow> string" where
  "strip_minus s = (case s of [] \<Rightarrow> [] | c # cs \<Rightarrow> if c = CHR ''-'' then cs else s)"

definition integer_grammar :: "string \<Rightarrow> bool" where
  "integer_grammar s =
     (1 \<le> length (strip_minus s) \<and> length (strip_minus s) \<le> 100
      \<and> list_all is_digit (strip_minus s))"

section \<open>Go's \<^verbatim>\<open>encoding/json\<close> on strings (standard library)\<close>

text \<open>
  \<^verbatim>\<open>MarshalJSON\<close> calls \<^verbatim>\<open>json.Marshal\<close> on a string and \<^verbatim>\<open>UnmarshalJSON\<close> calls
  \<^verbatim>\<open>json.Unmarshal\<close> into a string variable. Both are written out after the library's
  source, for these two uses only. The double quote is \<open>CHR 0x22\<close> and the backslash
  \<open>CHR 0x5C\<close>.
\<close>

subsection \<open>\<^verbatim>\<open>json.Marshal\<close> of a string\<close>

definition hex :: "int \<Rightarrow> char" where
  "hex n = ''0123456789abcdef'' ! nat n"

text \<open>
  \<^verbatim>\<open>htmlSafeSet\<close>: the ASCII bytes written as they are (\<^verbatim>\<open>json.Marshal\<close> escapes for HTML).
\<close>

definition htmlSafeSet :: "char \<Rightarrow> bool" where
  "htmlSafeSet b =
     (0x20 \<le> byte b \<and> byte b < 0x80 \<and> b \<noteq> CHR 0x22 \<and> b \<noteq> CHR ''&'' \<and> b \<noteq> CHR ''<''
      \<and> b \<noteq> CHR ''>'' \<and> b \<noteq> CHR 0x5C)"

definition escape_byte :: "char \<Rightarrow> string" where
  "escape_byte b =
     (if b = CHR 0x5C \<or> b = CHR 0x22 then [CHR 0x5C, b]
      else if b = CHR 0x08 then [CHR 0x5C, CHR ''b'']
      else if b = CHR 0x0C then [CHR 0x5C, CHR ''f'']
      else if b = CHR 0x0A then [CHR 0x5C, CHR ''n'']
      else if b = CHR 0x0D then [CHR 0x5C, CHR ''r'']
      else if b = CHR 0x09 then [CHR 0x5C, CHR ''t'']
      else [CHR 0x5C, CHR ''u'', CHR ''0'', CHR ''0'', hex (byte b div 16), hex (byte b mod 16)])"

text \<open>The loop of \<^verbatim>\<open>appendString\<close> between the two quotes, on what is left of \<open>src\<close>.\<close>

function appendString :: "string \<Rightarrow> string" where
  "appendString src =
     (if src = [] then []
      else let b = src ! 0 in
        if byte b < RuneSelf then
          (if htmlSafeSet b then [b] else escape_byte b) @ appendString (drop 1 src)
        else let (c, sz) = DecodeRuneInString (take UTFMax src) in
          if c = RuneError \<and> sz = 1 then
            [CHR 0x5C, CHR ''u'', CHR ''f'', CHR ''f'', CHR ''f'', CHR ''d'']
            @ appendString (drop sz src)
          else if c = 0x2028 \<or> c = 0x2029 then
            [CHR 0x5C, CHR ''u'', CHR ''2'', CHR ''0'', CHR ''2'', hex (c mod 16)]
            @ appendString (drop sz src)
          else take sz src @ appendString (drop sz src))"
  by pat_completeness auto
termination
proof (relation "measure length", goal_cases)
  case 1
  show ?case by simp
next
  case (2 src b)
  then show ?case by (cases src) auto
next
  case (3 src b x c sz)
  then have "sz = snd (DecodeRuneInString (take UTFMax src))"
    by (metis snd_conv)
  with 3 show ?case
    using DecodeRuneInString_size [of "take UTFMax src"] by (cases src) (auto simp: UTFMax_def)
next
  case (4 src b x c sz)
  then have "sz = snd (DecodeRuneInString (take UTFMax src))"
    by (metis snd_conv)
  with 4 show ?case
    using DecodeRuneInString_size [of "take UTFMax src"] by (cases src) (auto simp: UTFMax_def)
next
  case (5 src b x c sz)
  then have "sz = snd (DecodeRuneInString (take UTFMax src))"
    by (metis snd_conv)
  with 5 show ?case
    using DecodeRuneInString_size [of "take UTFMax src"] by (cases src) (auto simp: UTFMax_def)
qed

declare appendString.simps [simp del]

definition json_Marshal_string :: "string \<Rightarrow> string" where
  "json_Marshal_string s = CHR 0x22 # appendString s @ [CHR 0x22]"

subsection \<open>\<^verbatim>\<open>json.Unmarshal\<close> into a string\<close>

definition isSpace :: "char \<Rightarrow> bool" where
  "isSpace c = (c = CHR '' '' \<or> c = CHR 0x09 \<or> c = CHR 0x0D \<or> c = CHR 0x0A)"

definition is_hex_digit :: "char \<Rightarrow> bool" where
  "is_hex_digit c =
     ((byte CHR ''0'' \<le> byte c \<and> byte c \<le> byte CHR ''9'')
      \<or> (byte CHR ''a'' \<le> byte c \<and> byte c \<le> byte CHR ''f'')
      \<or> (byte CHR ''A'' \<le> byte c \<and> byte c \<le> byte CHR ''F''))"

definition is_simple_escape :: "char \<Rightarrow> bool" where
  "is_simple_escape e = (e \<in> set ''bfnrt/'' \<or> e = CHR 0x5C \<or> e = CHR 0x22)"

text \<open>
  The scanner inside a string literal (\<^verbatim>\<open>stateInString\<close> and the states of an escape),
  from after the opening quote: the body of the literal and what follows its closing
  quote, or \<open>None\<close> on a syntax error.
\<close>

fun scan_string :: "string \<Rightarrow> (string \<times> string) option" where
  "scan_string [] = None"
| "scan_string (c # cs) =
     (if c = CHR 0x22 then Some ([], cs)
      else if c = CHR 0x5C then
        (case cs of
           [] \<Rightarrow> None
         | e # es \<Rightarrow>
             if is_simple_escape e then
               map_option (apfst (\<lambda>b. c # e # b)) (scan_string es)
             else if e = CHR ''u'' then
               (case es of
                  h1 # h2 # h3 # h4 # r \<Rightarrow>
                    if is_hex_digit h1 \<and> is_hex_digit h2 \<and> is_hex_digit h3 \<and> is_hex_digit h4
                    then map_option (apfst (\<lambda>b. c # e # h1 # h2 # h3 # h4 # b)) (scan_string r)
                    else None
                | _ \<Rightarrow> None)
             else None)
      else if byte c < 0x20 then None
      else map_option (apfst (\<lambda>b. c # b)) (scan_string cs))"

text \<open>\<^verbatim>\<open>getu4\<close>: the rune of \<^verbatim>\<open>\uXXXX\<close> at the head of \<open>s\<close>, or \<open>-1\<close>.\<close>

definition hex_value :: "char \<Rightarrow> int option" where
  "hex_value c =
     (if byte CHR ''0'' \<le> byte c \<and> byte c \<le> byte CHR ''9'' then Some (byte c - byte CHR ''0'')
      else if byte CHR ''a'' \<le> byte c \<and> byte c \<le> byte CHR ''f'' then
        Some (byte c - byte CHR ''a'' + 10)
      else if byte CHR ''A'' \<le> byte c \<and> byte c \<le> byte CHR ''F'' then
        Some (byte c - byte CHR ''A'' + 10)
      else None)"

fun getu4_loop :: "string \<Rightarrow> rune \<Rightarrow> rune" where
  "getu4_loop [] r = r"
| "getu4_loop (c # cs) r =
     (case hex_value c of None \<Rightarrow> - 1 | Some v \<Rightarrow> getu4_loop cs (r * 16 + v))"

definition getu4 :: "string \<Rightarrow> rune" where
  "getu4 s =
     (if length s < 6 \<or> s ! 0 \<noteq> CHR 0x5C \<or> s ! 1 \<noteq> CHR ''u'' then - 1
      else getu4_loop (take 4 (drop 2 s)) 0)"

lemma getu4_length: "0 \<le> getu4 s \<Longrightarrow> 6 \<le> length s"
  by (auto simp: getu4_def split: if_splits)

text \<open>\<^verbatim>\<open>utf16.IsSurrogate\<close> and \<^verbatim>\<open>utf16.DecodeRune\<close>.\<close>

definition IsSurrogate :: "rune \<Rightarrow> bool" where
  "IsSurrogate r = (0xD800 \<le> r \<and> r < 0xE000)"

definition utf16_DecodeRune :: "rune \<Rightarrow> rune \<Rightarrow> rune" where
  "utf16_DecodeRune r1 r2 =
     (if 0xD800 \<le> r1 \<and> r1 < 0xDC00 \<and> 0xDC00 \<le> r2 \<and> r2 < 0xE000
      then (r1 - 0xD800) * 1024 + (r2 - 0xDC00) + 0x10000
      else RuneError)"

definition unescape :: "char \<Rightarrow> char option" where
  "unescape e =
     (if e = CHR 0x22 \<or> e = CHR 0x5C \<or> e = CHR ''/'' \<or> e = CHR 0x27 then Some e
      else if e = CHR ''b'' then Some (CHR 0x08)
      else if e = CHR ''f'' then Some (CHR 0x0C)
      else if e = CHR ''n'' then Some (CHR 0x0A)
      else if e = CHR ''r'' then Some (CHR 0x0D)
      else if e = CHR ''t'' then Some (CHR 0x09)
      else None)"

text \<open>
  \<^verbatim>\<open>unquoteBytes\<close>. Its first loop finds how far the literal needs no unquoting; when that
  is all of it, the bytes are returned as they are. Its second loop, from there on,
  resolves the escapes and replaces invalid UTF-8 by the replacement character.
\<close>

function usual_prefix :: "string \<Rightarrow> nat" where
  "usual_prefix s =
     (if s = [] then 0
      else let c = s ! 0 in
        if c = CHR 0x5C \<or> c = CHR 0x22 \<or> byte c < 0x20 then 0
        else if byte c < RuneSelf then 1 + usual_prefix (drop 1 s)
        else let (rr, sz) = DecodeRuneInString s in
          if rr = RuneError \<and> sz = 1 then 0 else sz + usual_prefix (drop sz s))"
  by pat_completeness auto
termination
proof (relation "measure length", goal_cases)
  case 1
  show ?case by simp
next
  case (2 s c)
  then show ?case by auto
next
  case (3 s c x rr sz)
  then have "sz = snd (DecodeRuneInString s)"
    by (metis snd_conv)
  with 3 show ?case
    using DecodeRuneInString_size [of s] by (cases s) auto
qed

declare usual_prefix.simps [simp del]

function unquote_loop :: "string \<Rightarrow> string option" where
  "unquote_loop s =
     (if s = [] then Some []
      else let c = s ! 0 in
        if c = CHR 0x5C then
          (if length s < 2 then None
           else if s ! 1 = CHR ''u'' then
             (let rr = getu4 s in
              if rr < 0 then None
              else if IsSurrogate rr then
                (let dec = utf16_DecodeRune rr (getu4 (drop 6 s)) in
                 if dec \<noteq> RuneError
                 then map_option (\<lambda>t. EncodeRune dec @ t) (unquote_loop (drop 12 s))
                 else map_option (\<lambda>t. EncodeRune RuneError @ t) (unquote_loop (drop 6 s)))
              else map_option (\<lambda>t. EncodeRune rr @ t) (unquote_loop (drop 6 s)))
           else
             (case unescape (s ! 1) of
                None \<Rightarrow> None
              | Some b \<Rightarrow> map_option (\<lambda>t. b # t) (unquote_loop (drop 2 s))))
        else if c = CHR 0x22 \<or> byte c < 0x20 then None
        else if byte c < RuneSelf then map_option (\<lambda>t. c # t) (unquote_loop (drop 1 s))
        else let (rr, sz) = DecodeRuneInString s in
          map_option (\<lambda>t. EncodeRune rr @ t) (unquote_loop (drop sz s)))"
  by pat_completeness auto
termination
proof (relation "measure length", goal_cases)
  case 1
  show ?case by simp
next
  case (2 s c rr dec)
  then show ?case using getu4_length [of s] by auto
next
  case (3 s c rr dec)
  then show ?case using getu4_length [of s] by auto
next
  case (4 s c rr)
  then show ?case using getu4_length [of s] by auto
next
  case (5 s c b)
  then show ?case by auto
next
  case (6 s c)
  then show ?case by auto
next
  case (7 s c x rr sz)
  then have "sz = snd (DecodeRuneInString s)"
    by (metis snd_conv)
  with 7 show ?case
    using DecodeRuneInString_size [of s] by (cases s) auto
qed

declare unquote_loop.simps [simp del]

definition unquoteBytes :: "string \<Rightarrow> string option" where
  "unquoteBytes lit =
     (if length lit < 2 \<or> lit ! 0 \<noteq> CHR 0x22 \<or> lit ! (length lit - 1) \<noteq> CHR 0x22 then None
      else let s = take (length lit - 2) (drop 1 lit); r = usual_prefix s in
        if r = length s then Some s
        else map_option (\<lambda>t. take r s @ t) (unquote_loop (drop r s)))"

text \<open>
  \<^verbatim>\<open>json.Unmarshal(data, &s)\<close> for \<^verbatim>\<open>var s string\<close>: the error and the new value of \<open>s\<close>.
  The input is checked to be one JSON value between white space. A string literal is
  unquoted into \<open>s\<close>; \<^verbatim>\<open>null\<close> leaves \<open>s\<close> as it is and is no error; every other input is an
  error, of syntax or of type (a number, a boolean, an array or an object does not fit a
  string), and leaves \<open>s\<close> as it is. All these errors are the one \<open>ErrJSONUnmarshal\<close>.
\<close>

definition json_Unmarshal_string :: "string \<Rightarrow> string \<Rightarrow> error option \<times> string" where
  "json_Unmarshal_string data s =
     (let d = dropWhile isSpace data in
      case d of
        [] \<Rightarrow> (Some ErrJSONUnmarshal, s)
      | c # cs \<Rightarrow>
          if c = CHR 0x22 then
            (case scan_string cs of
               None \<Rightarrow> (Some ErrJSONUnmarshal, s)
             | Some (body, rest) \<Rightarrow>
                 if list_all isSpace rest then
                   (case unquoteBytes (c # body @ [CHR 0x22]) of
                      None \<Rightarrow> (Some ErrJSONUnmarshal, s)
                    | Some t \<Rightarrow> (None, t))
                 else (Some ErrJSONUnmarshal, s))
          else if take 4 d = ''null'' \<and> list_all isSpace (drop 4 d) then (None, s)
          else (Some ErrJSONUnmarshal, s))"

section \<open>Deep validation and the JSON form of a kind (package schema)\<close>

subsection \<open>\<^verbatim>\<open>Kind.ValidateValue\<close>\<close>

text \<open>
  \<^verbatim>\<open>json.Valid\<close> is taken as a parameter: only the \<^verbatim>\<open>JSONKind\<close> branch calls it. The type
  assertions \<^verbatim>\<open>value.(string)\<close> and \<^verbatim>\<open>value.(json.RawMessage)\<close> of the second switch are not
  checked by the code: on another type they panic (they never do, as \<^verbatim>\<open>ValidateValueType\<close>
  has accepted the value by then).
\<close>

definition ValidateValue :: "(string \<Rightarrow> bool) \<Rightarrow> Kind \<Rightarrow> go_value \<Rightarrow> error option" where
  "ValidateValue json_Valid t value =
     (case ValidateValueType t value of
        Some err \<Rightarrow> Some err
      | None \<Rightarrow>
          if t = StringKind then
            (case value of
               GoString str \<Rightarrow>
                 if \<not> ValidString str then Some (ErrExpectedUTF8 value)
                 else if has_null_rune str then Some (ErrNullCharacters value)
                 else None
             | _ \<Rightarrow> Some PanicTypeAssertion)
          else if t = IntegerStringKind then
            (case value of
               GoString str \<Rightarrow>
                 if \<not> Match integerRegex str then Some (ErrExpectedInteger value) else None
             | _ \<Rightarrow> Some PanicTypeAssertion)
          else if t = DecimalStringKind then
            (case value of
               GoString str \<Rightarrow>
                 if \<not> Match decimalRegex str then Some (ErrExpectedDecimal value) else None
             | _ \<Rightarrow> Some PanicTypeAssertion)
          else if t = JSONKind then
            (case value of
               GoRawMessage raw \<Rightarrow>
                 if \<not> json_Valid raw then Some (ErrExpectedJSON value) else None
             | _ \<Rightarrow> Some PanicTypeAssertion)
          else None)"

subsection \<open>\<^verbatim>\<open>kindStrings\<close> and \<^verbatim>\<open>init\<close>\<close>

text \<open>
  The table starts empty and \<^verbatim>\<open>init\<close> fills it with the loop
  \<^verbatim>\<open>for i := InvalidKind + 1; i <= MAX_VALID_KIND; i++ { kindStrings[i.String()] = i }\<close>.
\<close>

function init_loop :: "Kind \<Rightarrow> (string \<rightharpoonup> Kind) \<Rightarrow> (string \<rightharpoonup> Kind)" where
  "init_loop i m =
     (if i \<le> MAX_VALID_KIND then init_loop (i + 1) (m(String i \<mapsto> i)) else m)"
  by pat_completeness auto
termination
  by (relation "measure (\<lambda>(i, m). nat (MAX_VALID_KIND + 1 - i))") auto

declare init_loop.simps [simp del]

definition kindStrings :: "string \<rightharpoonup> Kind" where
  "kindStrings = init_loop (InvalidKind + 1) Map.empty"

subsection \<open>\<^verbatim>\<open>Kind.MarshalJSON\<close> and \<^verbatim>\<open>Kind.UnmarshalJSON\<close>\<close>

definition MarshalJSON :: "Kind \<Rightarrow> error + string" where
  "MarshalJSON t =
     (case Validate t of
        Some err \<Rightarrow> Inl err
      | None \<Rightarrow> Inr (json_Marshal_string (String t)))"

text \<open>
  \<^verbatim>\<open>UnmarshalJSON\<close> has a pointer receiver: \<open>t\<close> is the kind behind the pointer before the
  call, the result is the error with the kind behind it after the call.
\<close>

definition UnmarshalJSON :: "Kind \<Rightarrow> string \<Rightarrow> error option \<times> Kind" where
  "UnmarshalJSON t data =
     (case json_Unmarshal_string data [] of
        (Some err, s) \<Rightarrow> (Some err, t)
      | (None, s) \<Rightarrow>
          (case kindStrings s of
             None \<Rightarrow> (Some (ErrInvalidKindName s), t)
           | Some k \<Rightarrow> (None, k)))"

section \<open>The simulator (package appdatatest)\<close>

subsection \<open>Packets, listeners and the simulator\<close>

text \<open>
  Modelled from the spec: the structs \<^verbatim>\<open>schema.ObjectUpdate\<close> and
  \<^verbatim>\<open>appdata.ObjectUpdateData\<close> and the interface \<^verbatim>\<open>appdata.Packet\<close> are declared outside the
  files at hand. An object update has its type name, its key, its value and a deletion
  flag, and \<^verbatim>\<open>ObjectUpdateData\<close> tags one update with the name of its module; the simulator
  reads \<^verbatim>\<open>ModuleName\<close>, \<^verbatim>\<open>Update\<close> and \<^verbatim>\<open>Update.Key\<close>. Keys and values are of any type. A packet
  is an \<^verbatim>\<open>ObjectUpdateData\<close> or a value of another packet type, which the simulator only
  passes on.
\<close>

record ('k, 'v) ObjectUpdate =
  TypeName :: string
  Key :: 'k
  Value :: 'v
  Delete :: bool

record ('k, 'v) ObjectUpdateData =
  ModuleName :: string
  Update :: "('k, 'v) ObjectUpdate"

datatype ('k, 'v) Packet =
    ObjectUpdatePacket "('k, 'v) ObjectUpdateData"
  | OtherPacket string

type_synonym ('k, 'v) BlockData = "('k, 'v) Packet list"

text \<open>
  Modelled from the spec: \<^verbatim>\<open>appdata.Listener\<close> is declared outside the files at hand. Its
  callbacks are Go closures: each is a function of the listener's own state \<open>'l\<close>, which
  it may change, and returns an error \<open>'e\<close> or none. \<^verbatim>\<open>StartBlock\<close> and \<^verbatim>\<open>Commit\<close> may be
  \<^verbatim>\<open>nil\<close> (\<open>None\<close>); \<^verbatim>\<open>SendPacket\<close> is called without a check. A listener has no access to
  the simulator's fields.
\<close>

record ('l, 'k, 'v, 'e) Listener =
  StartBlock :: "(64 word \<Rightarrow> 'l \<Rightarrow> 'e option \<times> 'l) option"
  SendPacket :: "('k, 'v) Packet \<Rightarrow> 'l \<Rightarrow> 'e option \<times> 'l"
  Commit :: "('l \<Rightarrow> 'e option \<times> 'l) option"

text \<open>The calls a simulator makes to its listener.\<close>

datatype ('k, 'v) listener_call =
    CallStartBlock "64 word"
  | CallSendPacket "('k, 'v) Packet"
  | CallCommit

text \<open>
  \<^verbatim>\<open>Simulator\<close>: the reference state \<^verbatim>\<open>state\<close> (a \<^verbatim>\<open>statesim.App\<close>, of any type \<open>'a\<close> here) and
  the counter \<^verbatim>\<open>blockNum\<close>, a \<^verbatim>\<open>uint64\<close>. With them go the state of the listener of
  \<^verbatim>\<open>options\<close> and the calls made to it so far, oldest first, which is how the effects of a
  call on the listener are told.
\<close>

record ('a, 'l, 'k, 'v) Simulator =
  state :: 'a
  blockNum :: "64 word"
  listener_state :: 'l
  calls :: "('k, 'v) listener_call list"

subsection \<open>\<^verbatim>\<open>Simulator.ProcessBlockData\<close>\<close>

text \<open>
  \<^verbatim>\<open>statesim.App.ApplyUpdate\<close> is a parameter \<open>ApplyUpdate\<close>: from the module name, the update
  and the reference state to an error or none, and the reference state after the call.
\<close>

text \<open>The increment of the counter and the call of \<^verbatim>\<open>StartBlock\<close>, when there is one.\<close>

definition start_block ::
  "('l, 'k, 'v, 'e) Listener \<Rightarrow> ('a, 'l, 'k, 'v) Simulator
   \<Rightarrow> 'e option \<times> ('a, 'l, 'k, 'v) Simulator" where
  "start_block L a =
     (let a1 = a\<lparr>blockNum := blockNum a + 1\<rparr> in
      case StartBlock L of
        None \<Rightarrow> (None, a1)
      | Some f \<Rightarrow>
          (let (err, l) = f (blockNum a1) (listener_state a1) in
           (err, a1\<lparr>listener_state := l, calls := calls a1 @ [CallStartBlock (blockNum a1)]\<rparr>)))"

text \<open>The loop \<^verbatim>\<open>for _, packet := range data\<close>.\<close>

fun send_packets ::
  "('l, 'k, 'v, 'e) Listener \<Rightarrow> (string \<Rightarrow> ('k, 'v) ObjectUpdate \<Rightarrow> 'a \<Rightarrow> 'e option \<times> 'a)
   \<Rightarrow> ('a, 'l, 'k, 'v) Simulator \<Rightarrow> ('k, 'v) BlockData
   \<Rightarrow> 'e option \<times> ('a, 'l, 'k, 'v) Simulator" where
  "send_packets L ApplyUpdate a [] = (None, a)"
| "send_packets L ApplyUpdate a (packet # rest) =
     (let (err, l) = SendPacket L packet (listener_state a);
          a1 = a\<lparr>listener_state := l, calls := calls a @ [CallSendPacket packet]\<rparr>
      in case err of
        Some e \<Rightarrow> (Some e, a1)
      | None \<Rightarrow>
          (case packet of
             ObjectUpdatePacket updateData \<Rightarrow>
               (let (err', st) = ApplyUpdate (ModuleName updateData) (Update updateData) (state a1);
                    a2 = a1\<lparr>state := st\<rparr>
                in case err' of
                  Some e \<Rightarrow> (Some e, a2)
                | None \<Rightarrow> send_packets L ApplyUpdate a2 rest)
           | OtherPacket _ \<Rightarrow> send_packets L ApplyUpdate a1 rest))"

text \<open>The call of \<^verbatim>\<open>Commit\<close>, when there is one.\<close>

definition commit_block ::
  "('l, 'k, 'v, 'e) Listener \<Rightarrow> ('a, 'l, 'k, 'v) Simulator
   \<Rightarrow> 'e option \<times> ('a, 'l, 'k, 'v) Simulator" where
  "commit_block L a =
     (case Commit L of
        None \<Rightarrow> (None, a)
      | Some f \<Rightarrow>
          (let (err, l) = f (listener_state a) in
           (err, a\<lparr>listener_state := l, calls := calls a @ [CallCommit]\<rparr>)))"

definition ProcessBlockData ::
  "('l, 'k, 'v, 'e) Listener \<Rightarrow> (string \<Rightarrow> ('k, 'v) ObjectUpdate \<Rightarrow> 'a \<Rightarrow> 'e option \<times> 'a)
   \<Rightarrow> ('a, 'l, 'k, 'v) Simulator \<Rightarrow> ('k, 'v) BlockData
   \<Rightarrow> 'e option \<times> ('a, 'l, 'k, 'v) Simulator" where
  "ProcessBlockData L ApplyUpdate a data =
     (case start_block L a of
        (Some e, a1) \<Rightarrow> (Some e, a1)
      | (None, a1) \<Rightarrow>
          (case send_packets L ApplyUpdate a1 data of
             (Some e, a2) \<Rightarrow> (Some e, a2)
           | (None, a2) \<Rightarrow> commit_block L a2))"

text \<open>The packets sent to the listener among a list of calls, in their order.\<close>

fun sent_packets :: "('k, 'v) listener_call list \<Rightarrow> ('k, 'v) Packet list" where
  "sent_packets [] = []"
| "sent_packets (CallSendPacket p # cs) = p # sent_packets cs"
| "sent_packets (_ # cs) = sent_packets cs"

subsection \<open>\<^verbatim>\<open>Simulator.BlockDataGenN\<close>\<close>

text \<open>
  The generators of the library \<^verbatim>\<open>rapid\<close> draw from the random data of a test run. That
  data is a tape of numbers here, and a generator a function from the tape to the value
  drawn and the tape left, or \<open>None\<close> when the run is given up (the library panics with
  invalid data and no value is produced).

  \<^verbatim>\<open>rapid.IntRange(min, max)\<close> panics when \<^verbatim>\<open>min > max\<close> (\<open>None\<close>), and otherwise draws an
  integer between \<open>min\<close> and \<open>max\<close>, both included. \<^verbatim>\<open>Generator.Filter(fn)\<close> draws from the
  generator until \<open>fn\<close> holds of the value, a number \<open>tries\<close> of times at most, and gives
  the run up after that. \<^verbatim>\<open>rapid.Custom(f)\<close> is \<open>f\<close> itself.
\<close>

type_synonym tape = "nat list"
type_synonym 'x gen = "tape \<Rightarrow> ('x \<times> tape) option"

definition IntRange :: "int \<Rightarrow> int \<Rightarrow> int gen option" where
  "IntRange min_v max_v =
     (if min_v > max_v then None
      else Some (\<lambda>t. case t of
                        [] \<Rightarrow> None
                      | r # t' \<Rightarrow> Some (min_v + int r mod (max_v - min_v + 1), t')))"

fun Filter :: "nat \<Rightarrow> 'x gen \<Rightarrow> ('x \<Rightarrow> bool) \<Rightarrow> 'x gen" where
  "Filter 0 g fn t = None"
| "Filter (Suc n) g fn t =
     (case g t of
        None \<Rightarrow> None
      | Some (v, t') \<Rightarrow> if fn v then Some (v, t') else Filter n g fn t')"

text \<open>
  \<^verbatim>\<open>fmt.Sprintf("%s:%v", update.ModuleName, update.Update.Key)\<close>; the verb \<^verbatim>\<open>%v\<close> on a key
  is the parameter \<open>fmt_v\<close>.
\<close>

definition update_key :: "('k \<Rightarrow> string) \<Rightarrow> ('k, 'v) ObjectUpdateData \<Rightarrow> string" where
  "update_key fmt_v update = ModuleName update @ '':'' @ fmt_v (Key (Update update))"

text \<open>
  The loop \<^verbatim>\<open>for i := 0; i < numUpdates; i++\<close> of the custom generator. The closure of
  the filter reads the map \<^verbatim>\<open>updateSet\<close> as it is when a value is drawn; \<open>UpdateGen\<close> is
  \<^verbatim>\<open>a.state.UpdateGen()\<close>, a parameter.
\<close>

function BlockDataGenN_loop ::
  "nat \<Rightarrow> ('k, 'v) ObjectUpdateData gen \<Rightarrow> ('k \<Rightarrow> string) \<Rightarrow> int \<Rightarrow> int
   \<Rightarrow> (string \<rightharpoonup> bool) \<Rightarrow> ('k, 'v) BlockData \<Rightarrow> ('k, 'v) BlockData gen" where
  "BlockDataGenN_loop tries UpdateGen fmt_v i numUpdates updateSet packets t =
     (if i < numUpdates then
        (case Filter tries UpdateGen (\<lambda>update. updateSet (update_key fmt_v update) = None) t of
           None \<Rightarrow> None
         | Some (update, t') \<Rightarrow>
             BlockDataGenN_loop tries UpdateGen fmt_v (i + 1) numUpdates
               (updateSet(update_key fmt_v update \<mapsto> True))
               (packets @ [ObjectUpdatePacket update]) t')
      else Some (packets, t))"
  by pat_completeness auto
termination
  by (relation "measure (\<lambda>(tries, g, f, i, n, m, ps, t). nat (n - i))") auto

declare BlockDataGenN_loop.simps [simp del]

definition BlockDataGenN ::
  "nat \<Rightarrow> ('k, 'v) ObjectUpdateData gen \<Rightarrow> ('k \<Rightarrow> string) \<Rightarrow> int
   \<Rightarrow> ('k, 'v) BlockData gen option" where
  "BlockDataGenN tries UpdateGen fmt_v maxUpdatesPerBlock =
     (case IntRange 1 maxUpdatesPerBlock of
        None \<Rightarrow> None
      | Some numUpdatesGen \<Rightarrow>
          Some (\<lambda>t. case numUpdatesGen t of
                       None \<Rightarrow> None
                     | Some (numUpdates, t') \<Rightarrow>
                         BlockDataGenN_loop tries UpdateGen fmt_v 0 numUpdates Map.empty [] t'))"

text \<open>The packets of a block that are object updates, and the (module name, key) of one.\<close>

fun object_updates :: "('k, 'v) BlockData \<Rightarrow> ('k, 'v) ObjectUpdateData list" where
  "object_updates [] = []"
| "object_updates (ObjectUpdatePacket u # ps) = u # object_updates ps"
| "object_updates (OtherPacket _ # ps) = object_updates ps"

definition module_key :: "('k, 'v) ObjectUpdateData \<Rightarrow> string \<times> 'k" where
  "module_key update = (ModuleName update, Key (Update update))"

text \<open>\<^verbatim>\<open>Generator.Draw\<close>, of a generator whose construction may have panicked.\<close>

definition Draw :: "'x gen option \<Rightarrow> 'x gen" where
  "Draw g t = (case g of None \<Rightarrow> None | Some gen \<Rightarrow> gen t)"

text \<open>
  The reference state after a list of object updates, each applied by \<open>ApplyUpdate\<close> to
  the state the one before it left.
\<close>

fun apply_updates ::
  "(string \<Rightarrow> ('k, 'v) ObjectUpdate \<Rightarrow> 'a \<Rightarrow> 'e option \<times> 'a) \<Rightarrow> 'a
   \<Rightarrow> ('k, 'v) ObjectUpdateData list \<Rightarrow> 'a" where
  "apply_updates ApplyUpdate st [] = st"
| "apply_updates ApplyUpdate st (u # us) =
     apply_updates ApplyUpdate (snd (ApplyUpdate (ModuleName u) (Update u) st)) us"

subsection \<open>A listener that fails, and a block of three packets\<close>

text \<open>
  Inputs on which the theorems below are run. The listener counts in its state the
  packets it was sent and returns an error on the second of them, or, as
  \<open>failing_start\<close>, on \<^verbatim>\<open>StartBlock\<close>; the reference state is the list of the
  (module name, key) of the updates applied to it; the simulator stands after block 6.
\<close>

definition failing_second :: "(nat, nat, nat, string) Listener" where
  "failing_second =
     \<lparr>StartBlock = Some (\<lambda>height l. (None, l)),
      SendPacket = (\<lambda>packet l. (if l = 1 then Some ''rejected'' else None, Suc l)),
      Commit = Some (\<lambda>l. (None, l))\<rparr>"

definition failing_start :: "(nat, nat, nat, string) Listener" where
  "failing_start =
     \<lparr>StartBlock = Some (\<lambda>height l. (Some ''rejected'', l)),
      SendPacket = (\<lambda>packet l. (None, Suc l)),
      Commit = Some (\<lambda>l. (None, l))\<rparr>"

definition record_update ::
  "string \<Rightarrow> (nat, nat) ObjectUpdate \<Rightarrow> (string \<times> nat) list
   \<Rightarrow> string option \<times> (string \<times> nat) list" where
  "record_update moduleName update st = (None, st @ [(moduleName, Key update)])"

definition bank_update :: "nat \<Rightarrow> (nat, nat) ObjectUpdateData" where
  "bank_update k =
     \<lparr>ModuleName = ''bank'',
      Update = \<lparr>TypeName = ''balance'', Key = k, Value = 0, Delete = False\<rparr>\<rparr>"

definition three_packets :: "(nat, nat) BlockData" where
  "three_packets =
     [ObjectUpdatePacket (bank_update 1), ObjectUpdatePacket (bank_update 2),
      ObjectUpdatePacket (bank_update 3)]"

definition after_block_6 :: "((string \<times> nat) list, nat, nat, nat) Simulator" where
  "after_block_6 = \<lparr>state = [], blockNum = 6, listener_state = 0, calls = []\<rparr>"

text \<open>A generator of updates of the module \<^verbatim>\<open>bank\<close> with one of three keys.\<close>

definition bank_gen :: "(nat, nat) ObjectUpdateData gen" where
  "bank_gen t = (case t of [] \<Rightarrow> None | r # t' \<Rightarrow> Some (bank_update (r mod 3), t'))"

section \<open>Properties of the kind registry\<close>

lemma implemented_kind_cases:
  fixes k :: Kind
  assumes "0 < k" and "k \<le> 20"
  shows "k = 1 \<or> k = 2 \<or> k = 3 \<or> k = 4 \<or> k = 5 \<or> k = 6 \<or> k = 7 \<or> k = 8 \<or> k = 9 \<or> k = 10
    \<or> k = 11 \<or> k = 12 \<or> k = 13 \<or> k = 14 \<or> k = 15 \<or> k = 16 \<or> k = 17 \<or> k = 18 \<or> k = 19
    \<or> k = 20"
  using assms by arith

text \<open>
  C2. \<^verbatim>\<open>Validate\<close> returns an error for the identifier 0 and for every identifier above
  \<^verbatim>\<open>MAX_VALID_KIND = JSONKind\<close>, and returns \<^verbatim>\<open>nil\<close> for every identifier strictly between 0
  and the maximum, the maximum included. Stated as an equivalence on the whole of
  \<^verbatim>\<open>int\<close>: the identifiers that fail are exactly 0, those above the maximum, and the
  negative ones.
\<close>

theorem C2_validate_range:
  "Validate InvalidKind \<noteq> None \<and> MAX_VALID_KIND = JSONKind
   \<and> (\<forall>k. (Validate k = None) = (0 < k \<and> k \<le> MAX_VALID_KIND))
   \<and> (\<forall>k. (Validate k \<noteq> None) = (k = 0 \<or> k > MAX_VALID_KIND \<or> k < 0))"
  by (auto simp: Validate_def kind_defs)

text \<open>
  C5. \<^verbatim>\<open>ValidKeyKind\<close> is false exactly for \<^verbatim>\<open>Float32Kind\<close>, \<^verbatim>\<open>Float64Kind\<close> and
  \<^verbatim>\<open>JSONKind\<close>, and true for every other value of \<^verbatim>\<open>Kind\<close>.
\<close>

theorem C5_valid_key_kind:
  "(\<not> ValidKeyKind k) = (k = Float32Kind \<or> k = Float64Kind \<or> k = JSONKind)"
  by (simp add: ValidKeyKind_def)

text \<open>
  C8. \<^verbatim>\<open>KindForGoValue\<close> sends each supported Go type to its kind, never returns
  \<^verbatim>\<open>IntegerStringKind\<close>, \<^verbatim>\<open>DecimalStringKind\<close>, \<^verbatim>\<open>AddressKind\<close> or \<^verbatim>\<open>EnumKind\<close>, and
  returns \<^verbatim>\<open>InvalidKind\<close> exactly for the values whose type is no case of the switch.
\<close>

theorem C8_kind_for_go_value:
  "KindForGoValue (GoString s) = StringKind
   \<and> KindForGoValue (GoBytes b) = BytesKind
   \<and> KindForGoValue (GoInt8 i8) = Int8Kind
   \<and> KindForGoValue (GoUint8 u8) = Uint8Kind
   \<and> KindForGoValue (GoInt16 i16) = Int16Kind
   \<and> KindForGoValue (GoUint16 u16) = Uint16Kind
   \<and> KindForGoValue (GoInt32 i32) = Int32Kind
   \<and> KindForGoValue (GoUint32 u32) = Uint32Kind
   \<and> KindForGoValue (GoInt64 i64) = Int64Kind
   \<and> KindForGoValue (GoUint64 u64) = Uint64Kind
   \<and> KindForGoValue (GoFloat32 f32) = Float32Kind
   \<and> KindForGoValue (GoFloat64 f64) = Float64Kind
   \<and> KindForGoValue (GoBool p) = BoolKind
   \<and> KindForGoValue (GoTime tm) = TimeKind
   \<and> KindForGoValue (GoDuration d) = DurationKind
   \<and> KindForGoValue (GoRawMessage m) = JSONKind
   \<and> KindForGoValue v \<noteq> IntegerStringKind
   \<and> KindForGoValue v \<noteq> DecimalStringKind
   \<and> KindForGoValue v \<noteq> AddressKind
   \<and> KindForGoValue v \<noteq> EnumKind
   \<and> (KindForGoValue v = InvalidKind) = (\<not> has_kind_mapping v)"
  by (cases v) (simp_all add: kind_defs)

text \<open>
  C10. Whenever \<^verbatim>\<open>KindForGoValue(v)\<close> is not \<^verbatim>\<open>InvalidKind\<close>, the inferred kind accepts
  \<^verbatim>\<open>v\<close> under \<^verbatim>\<open>ValidateValueType\<close>.
\<close>

theorem C10_inferred_kind_accepts:
  "KindForGoValue v \<noteq> InvalidKind \<Longrightarrow> ValidateValueType (KindForGoValue v) v = None"
  by (cases v) (simp_all add: ValidateValueType_def expect_def is_type_defs kind_defs)

theorem C10_inferred_kind_accepts_witness:
  "KindForGoValue (GoInt64 42) \<noteq> InvalidKind
   \<and> ValidateValueType (KindForGoValue (GoInt64 42)) (GoInt64 42) = None"
proof -
  have h: "KindForGoValue (GoInt64 42) \<noteq> InvalidKind"
    by (simp add: kind_defs)
  show ?thesis
    using h C10_inferred_kind_accepts [OF h] by simp
qed

section \<open>Properties of the UTF-8 functions\<close>

lemma byte_range: "0 \<le> byte c" "byte c < 256"
  unfolding byte_def using nat_of_char_less_256 [of c] of_nat_of_char [of c, where ?'a = int]
  by (metis of_nat_0_le_iff, metis of_nat_less_iff of_nat_numeral)

lemma byte_zero: "(byte c = 0) = (c = CHR 0x00)"
  using of_char_eq_iff [of c "CHR 0x00", where ?'a = int] by (simp add: byte_def)

lemma first_Lead_cases:
  assumes "first b = Lead sz lo hi"
  shows "0x80 \<le> lo \<and> hi \<le> 0xBF \<and> 0xC2 \<le> b \<and> b \<le> 0xF4
    \<and> ((sz = 2 \<and> 2 \<le> b mod 32)
       \<or> (sz = 3 \<and> (1 \<le> b mod 16 \<or> 0xA0 \<le> lo))
       \<or> (sz = 4 \<and> (1 \<le> b mod 8 \<or> 0x90 \<le> lo)))"
  using assms unfolding first_def locb_def hicb_def
  by (auto split: if_splits) arith+

lemma first_AS: "(first b = AS) = (b < 0x80)"
  by (simp add: first_def locb_def hicb_def)

lemma cont_mod_32: "(160::int) \<le> b \<Longrightarrow> b \<le> 191 \<Longrightarrow> 32 \<le> b mod 64"
  by arith

lemma cont_mod_16: "(144::int) \<le> b \<Longrightarrow> b \<le> 191 \<Longrightarrow> 16 \<le> b mod 64"
  by arith

lemma rune2_nonzero: "(2::int) \<le> p \<Longrightarrow> 0 \<le> q \<Longrightarrow> p * 64 + q \<noteq> 0"
  by linarith

lemma rune3_nonzero:
  "(1::int) \<le> p \<or> 32 \<le> q \<Longrightarrow> 0 \<le> p \<Longrightarrow> 0 \<le> q \<Longrightarrow> 0 \<le> w \<Longrightarrow> p * 4096 + q * 64 + w \<noteq> 0"
  by linarith

lemma rune4_nonzero:
  "(1::int) \<le> p \<or> 16 \<le> q \<Longrightarrow> 0 \<le> p \<Longrightarrow> 0 \<le> q \<Longrightarrow> 0 \<le> w \<Longrightarrow> 0 \<le> z
   \<Longrightarrow> p * 262144 + q * 4096 + w * 64 + z \<noteq> 0"
  by linarith

text \<open>One step of the validation loop on a valid, non-empty string.\<close>

lemma valid_step:
  assumes v: "ValidString s" and ne: "s \<noteq> []"
  shows "\<exists>r sz. DecodeRuneInString s = (r, sz) \<and> 1 \<le> sz \<and> sz \<le> length s
    \<and> ValidString (drop sz s) \<and> (r = 0) = (CHR 0x00 \<in> set (take sz s))"
proof (cases "byte (s ! 0) < RuneSelf")
  case True
  from ne obtain a t where s: "s = a # t" by (cases s) auto
  from True have f: "first (byte a) = AS" by (simp add: s first_def RuneSelf_def)
  from v True have "ValidString t"
    by (subst (asm) ValidString.simps) (simp add: s)
  moreover have "DecodeRuneInString s = (byte a, 1)"
    by (simp add: DecodeRuneInString_def s f)
  ultimately show ?thesis
    by (auto simp: s byte_zero)
next
  case False
  from ne obtain a t where s: "s = a # t" by (cases s) auto
  from False have a: "\<not> byte a < 0x80" by (simp add: s RuneSelf_def)
  show ?thesis
  proof (cases "first (byte a)")
    case AS
    with a show ?thesis by (simp add: first_AS)
  next
    case XX
    with v False show ?thesis
      by (subst (asm) ValidString.simps) (simp add: s)
  next
    case (Lead sz lo hi)
    note fc = first_Lead_cases [OF Lead]
    from fc have lohi: "0x80 \<le> lo" "hi \<le> 0xBF" by simp_all
    from v False Lead have len: "sz \<le> length s"
      and c1: "lo \<le> byte (s ! 1)" "byte (s ! 1) \<le> hi"
      and c2: "sz = 2 \<or> (locb \<le> byte (s ! 2) \<and> byte (s ! 2) \<le> hicb)"
      and c3: "sz = 2 \<or> sz = 3 \<or> (locb \<le> byte (s ! 3) \<and> byte (s ! 3) \<le> hicb)"
      and rest: "ValidString (drop sz s)"
      by (subst (asm) ValidString.simps, simp add: s split: if_splits)+
    have nz: "byte c = 0 \<Longrightarrow> \<not> 0x80 \<le> byte c" for c by simp
    have a0: "a \<noteq> CHR 0x00" using a byte_zero [of a] by auto
    from fc consider (two) "sz = 2" "2 \<le> byte a mod 32"
      | (three) "sz = 3" "1 \<le> byte a mod 16 \<or> 0xA0 \<le> lo"
      | (four) "sz = 4" "1 \<le> byte a mod 8 \<or> 0x90 \<le> lo"
      by blast
    then show ?thesis
    proof cases
      case two
      from len two s obtain b u where s2: "s = a # b # u"
        by (cases t) auto
      from c1 lohi have b: "0x80 \<le> byte b" "lo \<le> byte b" "byte b \<le> hi"
        by (auto simp: s2)
      have d: "DecodeRuneInString s = ((byte a mod 32) * 64 + byte b mod 64, 2)"
        using b two by (simp add: DecodeRuneInString_def s2 Lead)
      have r: "(byte a mod 32) * 64 + byte b mod 64 \<noteq> 0"
        by (rule rune2_nonzero [OF two(2)]) simp
      have "b \<noteq> CHR 0x00" using b byte_zero [of b] by auto
      with a0 d r rest two show ?thesis by (auto simp: s2)
    next
      case three
      from len three s obtain b c u where s3: "s = a # b # c # u"
        by (cases t; cases "tl t") auto
      from c1 c2 lohi three have b: "0x80 \<le> byte b" "lo \<le> byte b" "byte b \<le> hi"
        and c: "0x80 \<le> byte c" "byte c \<le> 0xBF"
        by (auto simp: s3 locb_def hicb_def)
      have d: "DecodeRuneInString s =
          ((byte a mod 16) * 4096 + (byte b mod 64) * 64 + byte c mod 64, 3)"
        using b c three by (simp add: DecodeRuneInString_def s3 Lead locb_def hicb_def)
      have "1 \<le> byte a mod 16 \<or> 32 \<le> byte b mod 64"
        using three(2) b lohi cont_mod_32 [of "byte b"] by linarith
      then have r: "(byte a mod 16) * 4096 + (byte b mod 64) * 64 + byte c mod 64 \<noteq> 0"
        by (rule rune3_nonzero) simp_all
      have "b \<noteq> CHR 0x00" "c \<noteq> CHR 0x00"
        using b c byte_zero [of b] byte_zero [of c] by auto
      with a0 d r rest three show ?thesis by (auto simp: s3)
    next
      case four
      from len four s obtain b c e u where s4: "s = a # b # c # e # u"
        by (cases t; cases "tl t"; cases "tl (tl t)") auto
      from c1 c2 c3 lohi four have b: "0x80 \<le> byte b" "lo \<le> byte b" "byte b \<le> hi"
        and c: "0x80 \<le> byte c" "byte c \<le> 0xBF"
        and e: "0x80 \<le> byte e" "byte e \<le> 0xBF"
        by (auto simp: s4 locb_def hicb_def)
      have d: "DecodeRuneInString s =
          ((byte a mod 8) * 262144 + (byte b mod 64) * 4096 + (byte c mod 64) * 64
           + byte e mod 64, 4)"
        using b c e four by (simp add: DecodeRuneInString_def s4 Lead locb_def hicb_def)
      have "1 \<le> byte a mod 8 \<or> 16 \<le> byte b mod 64"
        using four(2) b lohi cont_mod_16 [of "byte b"] by linarith
      then have r: "(byte a mod 8) * 262144 + (byte b mod 64) * 4096 + (byte c mod 64) * 64
           + byte e mod 64 \<noteq> 0"
        by (rule rune4_nonzero) simp_all
      have "b \<noteq> CHR 0x00" "c \<noteq> CHR 0x00" "e \<noteq> CHR 0x00"
        using b c e byte_zero [of b] byte_zero [of c] byte_zero [of e] by auto
      with a0 d r rest four show ?thesis by (auto simp: s4)
    qed
  qed
qed

lemma valid_null_rune:
  "ValidString s \<Longrightarrow> has_null_rune s = (CHR 0x00 \<in> set s)"
proof (induction s rule: length_induct)
  case (1 s)
  show ?case
  proof (cases "s = []")
    case True
    then show ?thesis by (simp add: has_null_rune.simps)
  next
    case False
    from valid_step [OF "1.prems" False] obtain r sz where
      d: "DecodeRuneInString s = (r, sz)" and sz: "1 \<le> sz" "sz \<le> length s"
      and v: "ValidString (drop sz s)" and r: "(r = 0) = (CHR 0x00 \<in> set (take sz s))"
      by blast
    from sz False have "length (drop sz s) < length s" by simp
    with "1.IH" v have ih: "has_null_rune (drop sz s) = (CHR 0x00 \<in> set (drop sz s))"
      by blast
    have "set s = set (take sz s) \<union> set (drop sz s)"
      by (metis append_take_drop_id set_append)
    with d r ih False show ?thesis
      by (subst has_null_rune.simps) auto
  qed
qed

section \<open>Properties of the matcher\<close>

lemma iterate_class:
  "((q, u) \<in> set (iterate (rmatch (CharClass rs)) lo hi (p, t))) =
   (\<exists>k. lo \<le> k \<and> k \<le> hi \<and> k \<le> length t \<and> list_all (in_class rs) (take k t)
        \<and> q = p + k \<and> u = drop k t)"
proof (induction hi arbitrary: lo p t)
  case 0
  then show ?case by auto
next
  case (Suc hi)
  show ?case (is "?L = ?R")
  proof
    assume ?L
    then consider (stop) "lo = 0" "q = p" "u = t"
      | (go) x xs where "t = x # xs" "in_class rs x"
          "(q, u) \<in> set (iterate (rmatch (CharClass rs)) (lo - 1) hi (Suc p, xs))"
      by (auto split: list.splits if_splits)
    then show ?R
    proof cases
      case stop
      then show ?thesis by (intro exI [of _ 0]) simp
    next
      case go
      from go(3) obtain k where k: "lo - 1 \<le> k" "k \<le> hi" "k \<le> length xs"
        "list_all (in_class rs) (take k xs)" "q = Suc p + k" "u = drop k xs"
        unfolding Suc.IH by blast
      with go(1,2) show ?thesis by (intro exI [of _ "Suc k"]) auto
    qed
  next
    assume ?R
    then obtain k where k: "lo \<le> k" "k \<le> Suc hi" "k \<le> length t"
      "list_all (in_class rs) (take k t)" "q = p + k" "u = drop k t"
      by blast
    show ?L
    proof (cases k)
      case 0
      with k show ?thesis by simp
    next
      case (Suc j)
      with k obtain x xs where t: "t = x # xs" by (cases t) auto
      from k Suc t have "(q, u) \<in> set (iterate (rmatch (CharClass rs)) (lo - 1) hi (Suc p, xs))"
        unfolding Suc.IH by (intro exI [of _ j]) auto
      with k Suc t show ?thesis by auto
    qed
  qed
qed

lemma in_digit_class: "in_class [(CHR ''0'', CHR ''9'')] = is_digit"
  by (rule ext) (simp add: in_class_def is_digit_def)

lemma rmatch_then_end:
  "(concat (map (rmatch (Concat [EndText])) xs) \<noteq> []) = (\<exists>q. (q, []) \<in> set xs)"
  by (induction xs) (auto split: if_splits)

lemma digits_to_end:
  "(rmatch (Concat [Repeat lo hi digit_class, EndText]) (p, t) \<noteq> []) =
   (lo \<le> length t \<and> length t \<le> hi \<and> list_all is_digit t)"
proof -
  have "(rmatch (Concat [Repeat lo hi digit_class, EndText]) (p, t) \<noteq> []) =
      (\<exists>q. (q, []) \<in> set (iterate (rmatch digit_class) lo hi (p, t)))"
    using rmatch_then_end [of "iterate (rmatch digit_class) lo hi (p, t)"] by simp
  also have "\<dots> = (lo \<le> length t \<and> length t \<le> hi \<and> list_all is_digit t)"
    unfolding digit_class_def iterate_class in_digit_class by auto
  finally show ?thesis .
qed

lemma Match_anchored:
  "Match (Concat (BeginText # rs)) s = (rmatch (Concat rs) (0, s) \<noteq> [])"
proof -
  have "rmatch (Concat (BeginText # rs)) (i, drop i s) \<noteq> [] \<Longrightarrow> i = 0" for i
    by (auto split: if_splits)
  moreover have "rmatch (Concat (BeginText # rs)) (0, s) = rmatch (Concat rs) (0, s)"
    by simp
  ultimately show ?thesis
    unfolding Match_def list_ex_iff
    by (metis atLeastLessThan_iff drop0 set_upt zero_less_Suc zero_order(1))
qed

lemma rmatch_Quest_Lit:
  "rmatch (Concat (Quest (Lit c) # rs)) (p, s) =
     (case s of [] \<Rightarrow> [] | x # xs \<Rightarrow> if x = c then rmatch (Concat rs) (Suc p, xs) else [])
     @ rmatch (Concat rs) (p, s)"
  by (simp split: list.splits)

lemma strip_minus_replicate:
  "c \<noteq> CHR 0x2D \<Longrightarrow> strip_minus (replicate n c) = replicate n c"
  by (cases n) (simp_all add: strip_minus_def)

lemma minus_not_digit: "\<not> is_digit CHR ''-''"
  by (simp add: is_digit_def)

lemma Match_integerRegex: "Match integerRegex s = integer_grammar s"
proof -
  have "Match integerRegex s =
      (rmatch (Concat [Quest (Lit CHR ''-''), Repeat 1 100 digit_class, EndText]) (0, s) \<noteq> [])"
    unfolding integerRegex_def by (rule Match_anchored)
  also have "\<dots> = ((\<exists>cs. s = CHR ''-'' # cs
        \<and> rmatch (Concat [Repeat 1 100 digit_class, EndText]) (1, cs) \<noteq> [])
      \<or> rmatch (Concat [Repeat 1 100 digit_class, EndText]) (0, s) \<noteq> [])"
    unfolding rmatch_Quest_Lit by (cases s) auto
  also have "\<dots> = integer_grammar s"
    unfolding digits_to_end
    by (cases s) (auto simp: integer_grammar_def strip_minus_def minus_not_digit)
  finally show ?thesis .
qed

section \<open>Properties of deep validation\<close>

text \<open>The two switches of \<^verbatim>\<open>ValidateValue\<close> at \<^verbatim>\<open>StringKind\<close> and at \<^verbatim>\<open>IntegerStringKind\<close>.\<close>

lemma ValidateValue_StringKind:
  "ValidateValue jv StringKind v =
     (case v of
        GoString str \<Rightarrow>
          if \<not> ValidString str then Some (ErrExpectedUTF8 v)
          else if has_null_rune str then Some (ErrNullCharacters v)
          else None
      | _ \<Rightarrow> Some (ErrExpectedGot ''string'' (go_type_name v)))"
  by (cases v)
    (simp_all add: ValidateValue_def ValidateValueType_def expect_def is_type_defs kind_defs)

lemma ValidateValue_IntegerStringKind:
  "ValidateValue jv IntegerStringKind v =
     (case v of
        GoString str \<Rightarrow>
          if \<not> Match integerRegex str then Some (ErrExpectedInteger v) else None
      | _ \<Rightarrow> Some (ErrExpectedGot ''string'' (go_type_name v)))"
  by (cases v)
    (simp_all add: ValidateValue_def ValidateValueType_def expect_def is_type_defs kind_defs)

text \<open>The unchecked type assertions of \<^verbatim>\<open>ValidateValue\<close> never panic.\<close>

lemma ValidateValue_no_panic: "ValidateValue jv t v \<noteq> Some PanicTypeAssertion"
  by (cases v)
    (auto simp: ValidateValue_def ValidateValueType_def expect_def is_type_defs kind_defs
      split: option.splits)

text \<open>
  C6. On a string \<open>s\<close>, \<^verbatim>\<open>ValidateValue\<close> of \<^verbatim>\<open>IntegerStringKind\<close> returns \<^verbatim>\<open>nil\<close> exactly when
  \<open>s\<close> is an optional minus sign followed by 1 to 100 decimal digits and nothing else,
  which is what \<^verbatim>\<open>^-?[0-9]{1,100}$\<close> says. It accepts \<^verbatim>\<open>"0"\<close>, \<^verbatim>\<open>"-123"\<close>, a string of 100
  digits and \<^verbatim>\<open>"01"\<close>; it rejects the empty string and a string of 101 digits.
\<close>

theorem C6_integer_string_validation:
  "(ValidateValue jv IntegerStringKind (GoString s) = None) = integer_grammar s
   \<and> ValidateValue jv IntegerStringKind (GoString ''0'') = None
   \<and> ValidateValue jv IntegerStringKind (GoString ''-123'') = None
   \<and> ValidateValue jv IntegerStringKind (GoString (replicate 100 CHR ''7'')) = None
   \<and> ValidateValue jv IntegerStringKind (GoString ''01'') = None
   \<and> ValidateValue jv IntegerStringKind (GoString []) \<noteq> None
   \<and> ValidateValue jv IntegerStringKind (GoString (replicate 101 CHR ''7'')) \<noteq> None"
proof -
  have eq: "(ValidateValue jv IntegerStringKind (GoString x) = None) = integer_grammar x" for x
    by (simp add: ValidateValue_IntegerStringKind Match_integerRegex)
  have "integer_grammar ''0''" "integer_grammar ''-123''" "integer_grammar ''01''"
    "\<not> integer_grammar []"
    by (simp_all add: integer_grammar_def strip_minus_def is_digit_def)
  moreover have "integer_grammar (replicate 100 CHR ''7'')"
    "\<not> integer_grammar (replicate 101 CHR ''7'')"
    by (simp_all add: integer_grammar_def strip_minus_replicate is_digit_def list_all_iff)
  ultimately show ?thesis
    unfolding eq by simp
qed

text \<open>
  C7. \<^verbatim>\<open>ValidateValue\<close> of \<^verbatim>\<open>StringKind\<close> returns \<^verbatim>\<open>nil\<close> exactly for the values that are a Go
  string, valid as UTF-8 and without a NUL byte. Each other value gets an error, never a
  panic: a value of another type the error \<^verbatim>\<open>expected string, got %T\<close> of
  \<^verbatim>\<open>ValidateValueType\<close>, a string that is not valid UTF-8 the error
  \<^verbatim>\<open>expected valid utf-8 string\<close>, and a valid string with a NUL byte the error
  \<^verbatim>\<open>expected string without null characters\<close>.
\<close>

theorem C7_string_validation:
  "ValidateValue jv StringKind v =
     (case v of
        GoString s \<Rightarrow>
          if \<not> ValidString s then Some (ErrExpectedUTF8 v)
          else if CHR 0x00 \<in> set s then Some (ErrNullCharacters v)
          else None
      | _ \<Rightarrow> Some (ErrExpectedGot ''string'' (go_type_name v)))
   \<and> (ValidateValue jv StringKind v = None) =
       (\<exists>s. v = GoString s \<and> ValidString s \<and> CHR 0x00 \<notin> set s)
   \<and> ValidateValue jv StringKind v \<noteq> Some PanicTypeAssertion"
proof (cases v)
  case (GoString s)
  then show ?thesis
    using valid_null_rune [of s] by (auto simp: ValidateValue_StringKind)
qed (simp_all add: ValidateValue_StringKind)

text \<open>
  A string of plain letters is accepted; a string with a NUL byte, a string that ends in
  the middle of a two-byte sequence, a byte slice and an \<^verbatim>\<open>int64\<close> get their errors.
\<close>

theorem C7_string_validation_witness:
  "ValidateValue (\<lambda>raw. True) StringKind (GoString ''caf'') = None
   \<and> ValidateValue (\<lambda>raw. True) StringKind (GoString [CHR ''a'', CHR 0x00])
     = Some (ErrNullCharacters (GoString [CHR ''a'', CHR 0x00]))
   \<and> ValidateValue (\<lambda>raw. True) StringKind (GoString [CHR 0xC3])
     = Some (ErrExpectedUTF8 (GoString [CHR 0xC3]))
   \<and> ValidateValue (\<lambda>raw. True) StringKind (GoBytes ''caf'')
     = Some (ErrExpectedGot ''string'' ''[]uint8'')
   \<and> ValidateValue (\<lambda>raw. True) StringKind (GoInt64 1)
     = Some (ErrExpectedGot ''string'' ''int64'')"
proof -
  have v: "ValidString ''caf''" "ValidString [CHR ''a'', CHR 0x00]" "\<not> ValidString [CHR 0xC3]"
    by (simp_all add: ValidString.simps byte_def RuneSelf_def first_def locb_def hicb_def)
  note c = C7_string_validation [of "\<lambda>raw. True", THEN conjunct1]
  show ?thesis
    using v by (simp add: c)
qed

section \<open>The names of the kinds\<close>

subsection \<open>JSON strings of plain characters\<close>

text \<open>
  A string of bytes of \<^verbatim>\<open>htmlSafeSet\<close> is marshalled as itself between quotes, and such a
  literal is unmarshalled as the string between the quotes.
\<close>

lemma htmlSafeSet_facts:
  assumes "htmlSafeSet a"
  shows "byte a < RuneSelf" and "\<not> byte a < 0x20" and "a \<noteq> CHR 0x22" and "a \<noteq> CHR 0x5C"
  using assms by (simp_all add: htmlSafeSet_def RuneSelf_def)

lemma appendString_plain: "list_all htmlSafeSet s \<Longrightarrow> appendString s = s"
proof (induction s)
  case Nil
  show ?case by (simp add: appendString.simps)
next
  case (Cons a s)
  then have "htmlSafeSet a" and "appendString s = s"
    by simp_all
  then show ?case
    by (subst appendString.simps) (simp add: htmlSafeSet_facts)
qed

lemma scan_string_plain:
  "list_all htmlSafeSet s \<Longrightarrow> scan_string (s @ CHR 0x22 # rest) = Some (s, rest)"
  by (induction s) (simp_all add: htmlSafeSet_facts)

lemma usual_prefix_plain: "list_all htmlSafeSet s \<Longrightarrow> usual_prefix s = length s"
proof (induction s)
  case Nil
  show ?case by (simp add: usual_prefix.simps)
next
  case (Cons a s)
  then have "htmlSafeSet a" and "usual_prefix s = length s"
    by simp_all
  then show ?case
    by (subst usual_prefix.simps) (simp add: htmlSafeSet_facts)
qed

lemma unquoteBytes_plain:
  assumes "list_all htmlSafeSet s"
  shows "unquoteBytes (CHR 0x22 # s @ [CHR 0x22]) = Some s"
  using usual_prefix_plain [OF assms] by (simp add: unquoteBytes_def nth_append)

lemma json_string_round_trip:
  assumes "list_all htmlSafeSet s"
  shows "json_Unmarshal_string (json_Marshal_string s) s0 = (None, s)"
proof -
  have "json_Marshal_string s = CHR 0x22 # s @ [CHR 0x22]"
    by (simp add: json_Marshal_string_def appendString_plain [OF assms])
  moreover have "scan_string (s @ [CHR 0x22]) = Some (s, [])"
    by (rule scan_string_plain [OF assms])
  ultimately show ?thesis
    by (simp add: json_Unmarshal_string_def isSpace_def unquoteBytes_plain [OF assms])
qed

subsection \<open>The table \<^verbatim>\<open>kindStrings\<close> after \<^verbatim>\<open>init\<close>\<close>

lemma String_names:
  "String 1 = ''string''" "String 2 = ''bytes''" "String 3 = ''int8''" "String 4 = ''uint8''"
  "String 5 = ''int16''" "String 6 = ''uint16''" "String 7 = ''int32''" "String 8 = ''uint32''"
  "String 9 = ''int64''" "String 10 = ''uint64''" "String 11 = ''integer''"
  "String 12 = ''decimal''" "String 13 = ''bool''" "String 14 = ''time''"
  "String 15 = ''duration''" "String 16 = ''float32''" "String 17 = ''float64''"
  "String 18 = ''address''" "String 19 = ''enum''" "String 20 = ''json''"
  by (simp_all add: String_def kind_defs)

lemma kindStrings_table:
  "kindStrings =
     [''string'' \<mapsto> 1, ''bytes'' \<mapsto> 2, ''int8'' \<mapsto> 3, ''uint8'' \<mapsto> 4, ''int16'' \<mapsto> 5,
      ''uint16'' \<mapsto> 6, ''int32'' \<mapsto> 7, ''uint32'' \<mapsto> 8, ''int64'' \<mapsto> 9, ''uint64'' \<mapsto> 10,
      ''integer'' \<mapsto> 11, ''decimal'' \<mapsto> 12, ''bool'' \<mapsto> 13, ''time'' \<mapsto> 14,
      ''duration'' \<mapsto> 15, ''float32'' \<mapsto> 16, ''float64'' \<mapsto> 17, ''address'' \<mapsto> 18,
      ''enum'' \<mapsto> 19, ''json'' \<mapsto> 20]"
  unfolding kindStrings_def InvalidKind_def
  by (simp add: init_loop.simps MAX_VALID_KIND_def JSONKind_def String_names)

lemma kindStrings_String:
  assumes "0 < k" and "k \<le> MAX_VALID_KIND"
  shows "kindStrings (String k) = Some k"
proof -
  from assms have "0 < k" and "k \<le> 20"
    by (simp_all add: kind_defs)
  from implemented_kind_cases [OF this] show ?thesis
    by (elim disjE) (simp_all add: kindStrings_table String_names)
qed

lemma kindStrings_Some:
  assumes "kindStrings n = Some k"
  shows "0 < k \<and> k \<le> MAX_VALID_KIND \<and> n = String k"
  using assms unfolding kindStrings_table
  by (auto simp: String_names kind_defs split: if_splits)

lemma String_plain:
  assumes "0 < k" and "k \<le> MAX_VALID_KIND"
  shows "list_all htmlSafeSet (String k)"
proof -
  from assms have "0 < k" and "k \<le> 20"
    by (simp_all add: kind_defs)
  from implemented_kind_cases [OF this] show ?thesis
    by (elim disjE) (simp_all add: String_names htmlSafeSet_def byte_def)
qed

text \<open>
  C1. For every implemented kind \<open>k\<close>, \<open>0 < k \<le> MAX_VALID_KIND\<close>: \<^verbatim>\<open>Validate\<close> returns \<^verbatim>\<open>nil\<close>;
  \<^verbatim>\<open>MarshalJSON\<close> gives the JSON string of \<^verbatim>\<open>k.String()\<close>, and \<^verbatim>\<open>UnmarshalJSON\<close> of that JSON
  string sets the kind behind the pointer, whatever it was, to \<open>k\<close> and returns \<^verbatim>\<open>nil\<close>; no
  other implemented kind has the name of \<open>k\<close>, and no two names of \<^verbatim>\<open>kindStrings\<close> stand for
  \<open>k\<close>.
\<close>

theorem C1_name_round_trip:
  assumes "0 < k" and "k \<le> MAX_VALID_KIND"
  shows "Validate k = None
    \<and> MarshalJSON k = Inr (json_Marshal_string (String k))
    \<and> UnmarshalJSON t (json_Marshal_string (String k)) = (None, k)
    \<and> (\<forall>k'. 0 < k' \<and> k' \<le> MAX_VALID_KIND \<and> String k' = String k \<longrightarrow> k' = k)
    \<and> (\<forall>n n'. kindStrings n = Some k \<and> kindStrings n' = Some k \<longrightarrow> n = n')"
proof -
  have v: "Validate k = None"
    using assms by (simp add: Validate_def kind_defs)
  then have m: "MarshalJSON k = Inr (json_Marshal_string (String k))"
    by (simp add: MarshalJSON_def)
  have u: "UnmarshalJSON t (json_Marshal_string (String k)) = (None, k)"
    by (simp add: UnmarshalJSON_def json_string_round_trip [OF String_plain [OF assms]]
        kindStrings_String [OF assms])
  have i: "k' = k" if "0 < k'" "k' \<le> MAX_VALID_KIND" "String k' = String k" for k'
    using kindStrings_String [OF that(1,2)] kindStrings_String [OF assms] that(3)
    by (metis option.inject)
  have j: "n = n'" if "kindStrings n = Some k" "kindStrings n' = Some k" for n n'
    using kindStrings_Some [OF that(1)] kindStrings_Some [OF that(2)] by metis
  from v m u i j show ?thesis
    by blast
qed

theorem C1_name_round_trip_witness:
  "(0::int) < Int64Kind \<and> Int64Kind \<le> MAX_VALID_KIND
   \<and> Validate Int64Kind = None
   \<and> MarshalJSON Int64Kind = Inr [CHR 0x22, CHR ''i'', CHR ''n'', CHR ''t'', CHR ''6'', CHR ''4'', CHR 0x22]
   \<and> UnmarshalJSON InvalidKind
        [CHR 0x22, CHR ''i'', CHR ''n'', CHR ''t'', CHR ''6'', CHR ''4'', CHR 0x22]
      = (None, Int64Kind)"
proof -
  have h: "(0::int) < Int64Kind" "Int64Kind \<le> MAX_VALID_KIND"
    by (simp_all add: kind_defs)
  have s: "String Int64Kind = ''int64''"
    by (simp add: String_def kind_defs)
  have "json_Marshal_string ''int64''
      = [CHR 0x22, CHR ''i'', CHR ''n'', CHR ''t'', CHR ''6'', CHR ''4'', CHR 0x22]"
    by (simp add: json_Marshal_string_def appendString.simps htmlSafeSet_def byte_def
        RuneSelf_def)
  with h s C1_name_round_trip [OF h, of InvalidKind] show ?thesis
    by simp
qed

section \<open>Properties of the simulator\<close>

subsection \<open>\<^verbatim>\<open>ProcessBlockData\<close>\<close>

lemma start_block_fields:
  assumes "start_block L a = (r, a1)"
  shows "blockNum a1 = blockNum a + 1" and "state a1 = state a"
    and "\<exists>new. calls a1 = calls a @ new \<and> CallCommit \<notin> set new \<and> sent_packets new = []"
  using assms
  by (auto simp: start_block_def Let_def split: option.splits prod.splits)

lemma commit_block_blockNum:
  "commit_block L a = (r, a') \<Longrightarrow> blockNum a' = blockNum a"
  by (auto simp: commit_block_def split: option.splits prod.splits)

lemma send_packets_blockNum:
  "send_packets L A a xs = (r, a') \<Longrightarrow> blockNum a' = blockNum a"
proof (induction xs arbitrary: a)
  case Nil
  then show ?case by simp
next
  case (Cons p xs)
  then show ?case
    by (auto simp: Let_def split: prod.splits option.splits Packet.splits)
qed

text \<open>A loop that ends without an error has sent every packet and applied every update.\<close>

lemma send_packets_ok:
  "send_packets L A a xs = (None, a') \<Longrightarrow>
     calls a' = calls a @ map CallSendPacket xs
     \<and> state a' = apply_updates A (state a) (object_updates xs)"
proof (induction xs arbitrary: a)
  case Nil
  then show ?case by simp
next
  case (Cons p xs)
  then show ?case
    by (cases p) (auto simp: Let_def split: prod.splits option.splits)
qed

lemma send_packets_append:
  "send_packets L A a (xs @ ys) =
     (case send_packets L A a xs of
        (Some e, a') \<Rightarrow> (Some e, a')
      | (None, a') \<Rightarrow> send_packets L A a' ys)"
proof (induction xs arbitrary: a)
  case Nil
  show ?case by simp
next
  case (Cons p xs)
  show ?case
    by (cases p) (simp_all add: Cons.IH Let_def split: prod.splits option.splits)
qed

lemma sent_packets_map [simp]: "sent_packets (map CallSendPacket xs) = xs"
  by (induction xs) simp_all

lemma sent_packets_append [simp]:
  "sent_packets (xs @ ys) = sent_packets xs @ sent_packets ys"
  by (induction xs rule: sent_packets.induct) simp_all

lemma ProcessBlockData_blockNum:
  "blockNum (snd (ProcessBlockData L A a data)) = blockNum a + 1"
proof -
  obtain r1 a1 where s: "start_block L a = (r1, a1)"
    by (cases "start_block L a")
  obtain r2 a2 where p: "send_packets L A a1 data = (r2, a2)"
    by (cases "send_packets L A a1 data")
  obtain r3 a3 where c: "commit_block L a2 = (r3, a3)"
    by (cases "commit_block L a2")
  from s p c show ?thesis
    using start_block_fields(1) [OF s] send_packets_blockNum [OF p] commit_block_blockNum [OF c]
    by (cases r1; cases r2) (simp_all add: ProcessBlockData_def)
qed

text \<open>The loop on a packet that the listener rejects, after packets it accepted.\<close>

lemma send_packets_rejected:
  assumes i: "i < length data"
    and pre: "send_packets L A a1 (take i data) = (None, a2)"
    and rej: "fst (SendPacket L (data ! i) (listener_state a2)) = Some e"
  shows "\<exists>a'. send_packets L A a1 data = (Some e, a')
    \<and> calls a' = calls a1 @ map CallSendPacket (take (Suc i) data)
    \<and> state a' = apply_updates A (state a1) (object_updates (take i data))"
proof -
  from i have d: "data = take i data @ data ! i # drop (Suc i) data"
    by (simp add: id_take_nth_drop)
  obtain l where l: "SendPacket L (data ! i) (listener_state a2) = (Some e, l)"
    using rej by (cases "SendPacket L (data ! i) (listener_state a2)") simp
  have "send_packets L A a1 data = send_packets L A a2 (data ! i # drop (Suc i) data)"
    by (subst d, subst send_packets_append) (simp add: pre)
  also have "\<dots> =
      (Some e, a2\<lparr>listener_state := l, calls := calls a2 @ [CallSendPacket (data ! i)]\<rparr>)"
    by (simp add: l)
  finally show ?thesis
    using send_packets_ok [OF pre] i by (simp add: take_Suc_conv_app_nth)
qed

text \<open>
  C3. Let \<^verbatim>\<open>StartBlock\<close> have returned no error, let the loop have gone through the first
  \<open>i\<close> packets of the block without an error, and let \<^verbatim>\<open>SendPacket\<close> return the error \<open>e\<close>
  on packet \<open>i\<close>. Then \<^verbatim>\<open>ProcessBlockData\<close> returns \<open>e\<close>; among the calls it has made to the
  listener there is no \<^verbatim>\<open>Commit\<close>, and the packets it has sent are the packets 0 to \<open>i\<close> of
  the block, no later one; and the reference state is the state before the call with
  the updates among the first \<open>i\<close> packets applied, without that of packet \<open>i\<close> or of a
  later packet.
\<close>

theorem C3_send_packet_error:
  assumes "start_block L a = (None, a1)"
    and "i < length data"
    and "send_packets L A a1 (take i data) = (None, a2)"
    and "fst (SendPacket L (data ! i) (listener_state a2)) = Some e"
  shows "\<exists>a' new. ProcessBlockData L A a data = (Some e, a')
    \<and> calls a' = calls a @ new
    \<and> CallCommit \<notin> set new
    \<and> sent_packets new = take (Suc i) data
    \<and> state a' = apply_updates A (state a) (object_updates (take i data))"
proof -
  from send_packets_rejected [OF assms(2,3,4)] obtain a' where
    r: "send_packets L A a1 data = (Some e, a')"
    and c: "calls a' = calls a1 @ map CallSendPacket (take (Suc i) data)"
    and s: "state a' = apply_updates A (state a1) (object_updates (take i data))"
    by blast
  from start_block_fields(3) [OF assms(1)] obtain new1 where
    n: "calls a1 = calls a @ new1" "CallCommit \<notin> set new1" "sent_packets new1 = []"
    by blast
  have "ProcessBlockData L A a data = (Some e, a')"
    by (simp add: ProcessBlockData_def assms(1) r)
  moreover have "calls a' = calls a @ (new1 @ map CallSendPacket (take (Suc i) data))"
    by (simp add: c n(1))
  moreover have "CallCommit \<notin> set (new1 @ map CallSendPacket (take (Suc i) data))"
    using n(2) by auto
  moreover have "sent_packets (new1 @ map CallSendPacket (take (Suc i) data)) = take (Suc i) data"
    by (simp add: n(3))
  moreover have "state a' = apply_updates A (state a) (object_updates (take i data))"
    by (simp add: s start_block_fields(2) [OF assms(1)])
  ultimately show ?thesis
    by blast
qed

text \<open>
  The scenario of the specification: the listener rejects the second packet of a block
  of three. The block is block 7; the listener has seen \<^verbatim>\<open>StartBlock\<close> and two packets,
  and the reference state has the update of the first packet only.
\<close>

theorem C3_send_packet_error_witness:
  "start_block failing_second after_block_6
     = (None, \<lparr>state = [], blockNum = 7, listener_state = 0, calls = [CallStartBlock 7]\<rparr>)
   \<and> (1::nat) < length three_packets
   \<and> send_packets failing_second record_update
        \<lparr>state = [], blockNum = 7, listener_state = 0, calls = [CallStartBlock 7]\<rparr>
        (take 1 three_packets)
     = (None, \<lparr>state = [(''bank'', 1)], blockNum = 7, listener_state = 1,
          calls = [CallStartBlock 7, CallSendPacket (ObjectUpdatePacket (bank_update 1))]\<rparr>)
   \<and> fst (SendPacket failing_second (three_packets ! 1) 1) = Some ''rejected''
   \<and> ProcessBlockData failing_second record_update after_block_6 three_packets
     = (Some ''rejected'',
        \<lparr>state = [(''bank'', 1)], blockNum = 7, listener_state = 2,
          calls = [CallStartBlock 7, CallSendPacket (ObjectUpdatePacket (bank_update 1)),
            CallSendPacket (ObjectUpdatePacket (bank_update 2))]\<rparr>)"
proof -
  let ?a1 = "\<lparr>state = [], blockNum = 7, listener_state = 0, calls = [CallStartBlock 7]\<rparr>
    :: ((string \<times> nat) list, nat, nat, nat) Simulator"
  let ?a2 = "\<lparr>state = [(''bank'', 1)], blockNum = 7, listener_state = 1,
      calls = [CallStartBlock 7, CallSendPacket (ObjectUpdatePacket (bank_update 1))]\<rparr>
    :: ((string \<times> nat) list, nat, nat, nat) Simulator"
  have h1: "start_block failing_second after_block_6 = (None, ?a1)"
    by (simp add: start_block_def failing_second_def after_block_6_def)
  have h2: "(1::nat) < length three_packets"
    by (simp add: three_packets_def)
  have h3: "send_packets failing_second record_update ?a1 (take 1 three_packets) = (None, ?a2)"
    by (simp add: three_packets_def failing_second_def record_update_def bank_update_def)
  have h4: "fst (SendPacket failing_second (three_packets ! 1) (listener_state ?a2))
      = Some ''rejected''"
    by (simp add: failing_second_def)
  from C3_send_packet_error [OF h1 h2 h3 h4] obtain a' where
    "ProcessBlockData failing_second record_update after_block_6 three_packets
      = (Some ''rejected'', a')"
    by blast
  moreover have "ProcessBlockData failing_second record_update after_block_6 three_packets
      = (Some ''rejected'',
        \<lparr>state = [(''bank'', 1)], blockNum = 7, listener_state = 2,
          calls = [CallStartBlock 7, CallSendPacket (ObjectUpdatePacket (bank_update 1)),
            CallSendPacket (ObjectUpdatePacket (bank_update 2))]\<rparr>)"
  proof -
    have "send_packets failing_second record_update ?a1 three_packets
        = (Some ''rejected'',
          \<lparr>state = [(''bank'', 1)], blockNum = 7, listener_state = 2,
            calls = [CallStartBlock 7, CallSendPacket (ObjectUpdatePacket (bank_update 1)),
              CallSendPacket (ObjectUpdatePacket (bank_update 2))]\<rparr>)"
      by (simp add: three_packets_def failing_second_def record_update_def bank_update_def)
    then show ?thesis
      by (simp add: ProcessBlockData_def h1)
  qed
  ultimately show ?thesis
    using h1 h2 h3 h4 by simp
qed

text \<open>
  C4, as the code has it. \<^verbatim>\<open>ProcessBlockData\<close> increments \<^verbatim>\<open>blockNum\<close> before it calls any
  callback and never sets it back: when a callback (\<^verbatim>\<open>StartBlock\<close>, \<^verbatim>\<open>SendPacket\<close> or
  \<^verbatim>\<open>Commit\<close>) returns an error, \<^verbatim>\<open>blockNum\<close> is one more (as a \<^verbatim>\<open>uint64\<close>) than before the
  call, as it is after a call without an error.
\<close>

theorem C4_block_counter_on_error:
  "fst (ProcessBlockData L A a data) = Some e \<Longrightarrow>
     blockNum (snd (ProcessBlockData L A a data)) = blockNum a + 1"
  by (rule ProcessBlockData_blockNum)

theorem C4_block_counter_on_error_witness:
  "fst (ProcessBlockData failing_second record_update after_block_6 three_packets)
     = Some ''rejected''
   \<and> blockNum (snd (ProcessBlockData failing_second record_update after_block_6 three_packets))
     = 7
   \<and> blockNum after_block_6 = 6"
proof -
  have "send_packets failing_second record_update
      \<lparr>state = [], blockNum = 7, listener_state = 0, calls = [CallStartBlock 7]\<rparr> three_packets
      = (Some ''rejected'',
        \<lparr>state = [(''bank'', 1)], blockNum = 7, listener_state = 2,
          calls = [CallStartBlock 7, CallSendPacket (ObjectUpdatePacket (bank_update 1)),
            CallSendPacket (ObjectUpdatePacket (bank_update 2))]\<rparr>)"
    by (simp add: three_packets_def failing_second_def record_update_def bank_update_def)
  moreover have "start_block failing_second after_block_6
      = (None, \<lparr>state = [], blockNum = 7, listener_state = 0, calls = [CallStartBlock 7]\<rparr>)"
    by (simp add: start_block_def failing_second_def after_block_6_def)
  ultimately have h:
    "fst (ProcessBlockData failing_second record_update after_block_6 three_packets)
      = Some ''rejected''"
    by (simp add: ProcessBlockData_def)
  have b: "blockNum after_block_6 = 6"
    by (simp add: after_block_6_def)
  from C4_block_counter_on_error [OF h] h b show ?thesis
    by simp
qed

text \<open>
  The claim as the specification states it fails: a listener whose \<^verbatim>\<open>StartBlock\<close> returns
  an error leaves the simulator that stood after block 6 with the counter 7.
\<close>

theorem C4_block_counter_counterexample:
  "fst (ProcessBlockData failing_start record_update after_block_6 three_packets)
     = Some ''rejected''
   \<and> blockNum after_block_6 = 6
   \<and> blockNum (snd (ProcessBlockData failing_start record_update after_block_6 three_packets))
     = 7
   \<and> blockNum (snd (ProcessBlockData failing_start record_update after_block_6 three_packets))
     \<noteq> blockNum after_block_6"
  by (simp add: ProcessBlockData_def start_block_def failing_start_def after_block_6_def)

subsection \<open>\<^verbatim>\<open>BlockDataGenN\<close>\<close>

lemma Filter_accepts: "Filter n g fn t = Some (v, t') \<Longrightarrow> fn v"
  by (induction n arbitrary: t) (auto split: option.splits if_splits)

lemma IntRange_draw:
  assumes "IntRange lo hi = Some g" and "g t = Some (n, t')"
  shows "lo \<le> n \<and> n \<le> hi"
proof -
  from assms(1) have le: "lo \<le> hi"
    and g: "g = (\<lambda>t. case t of [] \<Rightarrow> None | r # t' \<Rightarrow> Some (lo + int r mod (hi - lo + 1), t'))"
    by (auto simp: IntRange_def split: if_splits)
  from assms(2) obtain r where n: "n = lo + int r mod (hi - lo + 1)"
    unfolding g by (auto split: list.splits)
  from le have "0 < hi - lo + 1"
    by simp
  from pos_mod_sign [OF this, of "int r"] pos_mod_bound [OF this, of "int r"] n show ?thesis
    by linarith
qed

text \<open>
  The loop keeps this: the packets are the object updates \<open>us\<close>, the key string of each
  is in \<^verbatim>\<open>updateSet\<close>, and no two have the same key string. It adds \<open>numUpdates - i\<close>
  packets.
\<close>

lemma BlockDataGenN_loop_invariant:
  assumes "BlockDataGenN_loop tries g f i n m (map ObjectUpdatePacket us) t = Some (ps, t')"
    and "\<forall>u \<in> set us. m (update_key f u) \<noteq> None"
    and "distinct (map (update_key f) us)"
  shows "\<exists>us'. ps = map ObjectUpdatePacket us'
    \<and> length us' = length us + nat (n - i)
    \<and> distinct (map (update_key f) us')"
  using assms
proof (induction tries g f i n m "map ObjectUpdatePacket us :: ('a, 'b) BlockData" t
    arbitrary: us rule: BlockDataGenN_loop.induct)
  case (1 tries g f i n m t)
  show ?case
  proof (cases "i < n")
    case False
    with "1.prems"(1) have "ps = map ObjectUpdatePacket us"
      by (subst (asm) BlockDataGenN_loop.simps) simp
    with False "1.prems"(3) show ?thesis
      by auto
  next
    case True
    let ?fn = "\<lambda>update. m (update_key f update) = None"
    from True "1.prems"(1) obtain u t1 where
      d: "Filter tries g ?fn t = Some (u, t1)"
      and r: "BlockDataGenN_loop tries g f (i + 1) n (m(update_key f u \<mapsto> True))
          (map ObjectUpdatePacket (us @ [u])) t1 = Some (ps, t')"
      by (subst (asm) BlockDataGenN_loop.simps) (auto split: option.splits)
    from Filter_accepts [OF d] have fresh: "m (update_key f u) = None" .
    with "1.prems"(2) have "update_key f u \<notin> set (map (update_key f) us)"
      by auto
    with "1.prems"(3) have dist: "distinct (map (update_key f) (us @ [u]))"
      by simp
    from "1.prems"(2) have dom:
      "\<forall>x \<in> set (us @ [u]). (m(update_key f u \<mapsto> True)) (update_key f x) \<noteq> None"
      by auto
    have "\<exists>us'. ps = map ObjectUpdatePacket us'
        \<and> length us' = length (us @ [u]) + nat (n - (i + 1))
        \<and> distinct (map (update_key f) us')"
      by (rule "1.hyps" [OF True d refl _ r dom dist]) simp
    with True show ?thesis
      by (auto simp: nat_diff_distrib)
  qed
qed

lemma distinct_module_key:
  assumes "distinct (map (update_key f) us)"
  shows "distinct (map module_key us)"
proof -
  from assms have d: "distinct us" and i: "inj_on (update_key f) (set us)"
    by (simp_all add: distinct_map)
  have "inj_on module_key (set us)"
  proof (rule inj_onI)
    fix x y
    assume "x \<in> set us" "y \<in> set us" "module_key x = module_key y"
    then have "update_key f x = update_key f y"
      by (simp add: update_key_def module_key_def)
    with i \<open>x \<in> set us\<close> \<open>y \<in> set us\<close> show "x = y"
      by (simp add: inj_on_def)
  qed
  with d show ?thesis
    by (simp add: distinct_map)
qed

text \<open>
  C9. A block drawn from \<^verbatim>\<open>BlockDataGenN(maxUpdatesPerBlock)\<close> consists of \<open>n\<close> packets, each
  an \<^verbatim>\<open>ObjectUpdateData\<close>, for an \<open>n\<close> with \<open>1 \<le> n \<le> maxUpdatesPerBlock\<close>, and the
  (module name, key) pairs of the \<open>n\<close> packets are pairwise distinct. This holds for
  every generator of updates, every rendering of keys by \<^verbatim>\<open>%v\<close> and every number of tries
  of the filter.
\<close>

theorem C9_block_data_gen:
  assumes "Draw (BlockDataGenN tries g f maxUpdatesPerBlock) t = Some (packets, t')"
  shows "\<exists>us. packets = map ObjectUpdatePacket us
    \<and> length packets = length us
    \<and> 1 \<le> length us \<and> int (length us) \<le> maxUpdatesPerBlock
    \<and> distinct (map module_key us)"
proof -
  from assms obtain numUpdatesGen where
    r: "IntRange 1 maxUpdatesPerBlock = Some numUpdatesGen"
    by (auto simp: Draw_def BlockDataGenN_def split: option.splits)
  with assms obtain numUpdates t1 where
    n: "numUpdatesGen t = Some (numUpdates, t1)"
    and l: "BlockDataGenN_loop tries g f 0 numUpdates Map.empty (map ObjectUpdatePacket []) t1
        = Some (packets, t')"
    by (auto simp: Draw_def BlockDataGenN_def split: option.splits)
  from IntRange_draw [OF r n] have b: "1 \<le> numUpdates" "numUpdates \<le> maxUpdatesPerBlock"
    by simp_all
  from BlockDataGenN_loop_invariant [OF l] obtain us where
    us: "packets = map ObjectUpdatePacket us" "length us = nat numUpdates"
      "distinct (map (update_key f) us)"
    by auto
  from us(2) b have "1 \<le> length us" "int (length us) \<le> maxUpdatesPerBlock"
    by simp_all
  with us(1) distinct_module_key [OF us(3)] show ?thesis
    by auto
qed

text \<open>One try of \<^verbatim>\<open>Filter\<close>, when there is one left.\<close>

lemma Filter_step:
  "0 < n \<Longrightarrow> Filter n g fn t =
     (case g t of
        None \<Rightarrow> None
      | Some (v, t') \<Rightarrow> if fn v then Some (v, t') else Filter (n - 1) g fn t')"
  by (cases n) (auto split: option.splits)

text \<open>
  A run with at most 3 updates per block: the tape gives 2 for the number of updates,
  then an update with key 1, one with key 1 again, which the filter rejects, and one
  with key 2.
\<close>

theorem C9_block_data_gen_witness:
  "Draw (BlockDataGenN 5 bank_gen fmt_nat 3) [1, 4, 7, 5]
     = Some ([ObjectUpdatePacket (bank_update 1), ObjectUpdatePacket (bank_update 2)], [])
   \<and> (\<exists>us. [ObjectUpdatePacket (bank_update 1), ObjectUpdatePacket (bank_update 2)]
          = map ObjectUpdatePacket us
        \<and> length [ObjectUpdatePacket (bank_update 1), ObjectUpdatePacket (bank_update 2)]
          = length us
        \<and> 1 \<le> length us \<and> int (length us) \<le> 3
        \<and> distinct (map module_key us))"
proof -
  have c: "char_of (49::nat) = CHR ''1''" "char_of (50::nat) = CHR ''2''"
    by code_simp+
  have fm: "fmt_nat 1 = ''1''" "fmt_nat 2 = ''2''"
    by (subst fmt_nat.simps, simp add: c)+
  have k: "update_key fmt_nat (bank_update 1) = ''bank:1''"
    "update_key fmt_nat (bank_update 2) = ''bank:2''"
    using fm by (simp_all add: update_key_def bank_update_def)
  have g: "bank_gen [4, 7, 5] = Some (bank_update 1, [7, 5])"
    "bank_gen [7, 5] = Some (bank_update 1, [5])"
    "bank_gen [5] = Some (bank_update 2, [])"
    by (simp_all add: bank_gen_def)
  have f1: "Filter 5 bank_gen (\<lambda>update. Map.empty (update_key fmt_nat update) = None) [4, 7, 5]
      = Some (bank_update 1, [7, 5])"
    by (simp add: Filter_step g)
  have f2: "Filter 5 bank_gen
        (\<lambda>update. [''bank:1'' \<mapsto> True] (update_key fmt_nat update) = None) [7, 5]
      = Some (bank_update 2, [])"
    using k by (simp add: Filter_step g)
  have "BlockDataGenN_loop 5 bank_gen fmt_nat 0 2 Map.empty [] [4, 7, 5]
      = Some ([ObjectUpdatePacket (bank_update 1), ObjectUpdatePacket (bank_update 2)], [])"
    using f1 f2 k by (simp add: BlockDataGenN_loop.simps)
  then have h: "Draw (BlockDataGenN 5 bank_gen fmt_nat 3) [1, 4, 7, 5]
      = Some ([ObjectUpdatePacket (bank_update 1), ObjectUpdatePacket (bank_update 2)], [])"
    by (simp add: Draw_def BlockDataGenN_def IntRange_def)
  from C9_block_data_gen [OF h] h show ?thesis
    by simp
qed

end
